theory Spec2Isabelle
  imports Complex_Main
begin

section \<open>Timer engine\<close>

text \<open>
  The \<^verbatim>\<open>Timer\<close> interface of the repository's type module: an identifier, a label,
  the original and the remaining duration in seconds, and a status out of
  \<^verbatim>\<open>'running' | 'paused' | 'finished'\<close>. The durations are of the source type
  \<^verbatim>\<open>number\<close>: nothing keeps them whole or positive, so they are rationals here.
\<close>

datatype timer_status = Running | Paused | Finished

record timer =
  timer_id :: string
  label :: string
  durationOriginal :: rat
  durationRemaining :: rat
  status :: timer_status

text \<open>
  The body of the \<^verbatim>\<open>prevTimers.map\<close> callback of the tick effect. The second
  component says whether the completion branch ran for this timer, that is, whether the
  "Timer Complete!" toast and the \<^verbatim>\<open>[TIMER ALERT]\<close> message were emitted.
\<close>

definition tickTimer :: "timer \<Rightarrow> timer \<times> bool" where
  "tickTimer t =
     (if status t \<noteq> Running then (t, False)
      else let nextRemaining = durationRemaining t - 1 in
        if nextRemaining \<le> 0 \<and> durationRemaining t > 0
        then (t\<lparr>durationRemaining := 0, status := Finished\<rparr>, True)
        else (t\<lparr>durationRemaining := max 0 nextRemaining\<rparr>, False))"

text \<open>
  The state updater run once per second: the list is returned as it is when no timer is
  running, and mapped otherwise. The second component lists the positions of the timers
  whose completion was emitted during this tick.
\<close>

definition tick :: "timer list \<Rightarrow> timer list \<times> nat list" where
  "tick prevTimers =
     (if \<not> list_ex (\<lambda>t. status t = Running) prevTimers then (prevTimers, [])
      else (map (\<lambda>t. fst (tickTimer t)) prevTimers,
            filter (\<lambda>i. snd (tickTimer (prevTimers ! i))) [0..<length prevTimers]))"

text \<open>\<^verbatim>\<open>addTimer\<close>: the new timer is appended, running, with both durations set to the argument.\<close>

definition newTimer :: "string \<Rightarrow> string \<Rightarrow> rat \<Rightarrow> timer" where
  "newTimer i l durationSeconds =
     \<lparr>timer_id = i, label = l, durationOriginal = durationSeconds,
      durationRemaining = durationSeconds, status = Running\<rparr>"

definition addTimerTo :: "timer list \<Rightarrow> string \<Rightarrow> string \<Rightarrow> rat \<Rightarrow> timer list" where
  "addTimerTo prev i l durationSeconds = prev @ [newTimer i l durationSeconds]"

text \<open>\<^verbatim>\<open>toggleTimer\<close> and \<^verbatim>\<open>resetTimer\<close>: maps over the list that touch the timers with the given id.\<close>

definition toggleTimer :: "string \<Rightarrow> bool \<Rightarrow> timer list \<Rightarrow> timer list" where
  "toggleTimer i pause prev =
     map (\<lambda>t. if timer_id t = i then t\<lparr>status := (if pause then Paused else Running)\<rparr> else t) prev"

definition resetTimer :: "string \<Rightarrow> timer list \<Rightarrow> timer list" where
  "resetTimer i prev =
     map (\<lambda>t. if timer_id t = i then t\<lparr>status := Running, durationRemaining := durationOriginal t\<rparr> else t) prev"

text \<open>The operations a timer list goes through, and a run of them.\<close>

datatype timer_op =
    OpTick
  | OpPause string
  | OpResume string
  | OpReset string
  | OpCreate string string rat

fun apply_op :: "timer_op \<Rightarrow> timer list \<Rightarrow> timer list" where
  "apply_op OpTick ts = fst (tick ts)"
| "apply_op (OpPause i) ts = toggleTimer i True ts"
| "apply_op (OpResume i) ts = toggleTimer i False ts"
| "apply_op (OpReset i) ts = resetTimer i ts"
| "apply_op (OpCreate i l d) ts = addTimerTo ts i l d"

fun apply_ops :: "timer_op list \<Rightarrow> timer list \<Rightarrow> timer list" where
  "apply_ops [] ts = ts"
| "apply_ops (x # xs) ts = apply_ops xs (apply_op x ts)"

text \<open>
  How often the timer at position \<open>i\<close> enters \<^const>\<open>Finished\<close> during a run: the steps
  after which it is finished and before which it was not (or did not exist yet).
\<close>

definition entersFinished :: "nat \<Rightarrow> timer list \<Rightarrow> timer list \<Rightarrow> bool" where
  "entersFinished i ts ts' =
     (i < length ts' \<and> status (ts' ! i) = Finished \<and>
      \<not> (i < length ts \<and> status (ts ! i) = Finished))"

fun finishes :: "nat \<Rightarrow> timer list \<Rightarrow> timer_op list \<Rightarrow> nat" where
  "finishes i ts [] = 0"
| "finishes i ts (x # xs) =
     (if entersFinished i ts (apply_op x ts) then 1 else 0) + finishes i (apply_op x ts) xs"

section \<open>The orchestrator component\<close>

subsection \<open>Data\<close>

record recipe =
  title :: string
  ingredients :: "string list"
  instructions :: "string list"

record vision_log =
  log_time :: string
  log_text :: string

text \<open>
  A function call of a tool-call batch. The argument bag is read at the fields the tool
  declarations require: \<^verbatim>\<open>label\<close> and \<^verbatim>\<open>durationSeconds\<close> (createTimer), \<^verbatim>\<open>text\<close>
  (logObservation).
\<close>

record tool_args =
  arg_label :: string
  arg_durationSeconds :: rat
  arg_text :: string

record function_call =
  fc_id :: string
  fc_name :: string
  fc_args :: tool_args

text \<open>
  The result objects of the dispatch loop: \<^verbatim>\<open>{result: <text>}\<close>, the createTimer
  confirmation \<^verbatim>\<open>{result: `Timer '${label}' set for ${durationSeconds}s`}\<close> kept as its two
  parameters, \<^verbatim>\<open>{timers: ...}\<close>, and the recipe object (title, ingredients, instructions,
  currentStep, currentStepText, totalSteps).
\<close>

datatype tool_result =
    ResultText string
  | ResultTimerSet string rat
  | ResultTimers "timer list"
  | ResultRecipe string "string list" "string list" nat string nat

record function_response =
  resp_id :: string
  resp_name :: string
  response :: tool_result

text \<open>
  A server message, by the fields \<^verbatim>\<open>onmessage\<close> reads. \<open>audioData\<close> holds the
  duration of the buffer that \<^verbatim>\<open>decodeAudioData\<close> returns for the inline data.
\<close>

record live_msg =
  turnComplete :: bool
  interrupted :: bool
  inputTranscription :: "string option"
  outputTranscription :: "string option"
  audioData :: "rat option"
  toolCall :: "function_call list option"

text \<open>A call \<^verbatim>\<open>bufferSource.start(t)\<close>: the source, the start time, the buffer's duration.\<close>

record scheduled_unit =
  source :: nat
  startAt :: rat
  bufferDuration :: rat

record timer_suggestion =
  sug_label :: string
  sug_durationSeconds :: rat
  sug_reason :: string

datatype error_msg =
    NoApiKey
  | SessionClosed "nat option" "string option"
  | ConnectionError "string option"
  | ConnectionFailed string
  | ConnectException string

datatype media_result = MediaGranted bool | MediaFailed string

text \<open>
  What \<^verbatim>\<open>supabase.functions.invoke('analyze-vision')\<close> settles with: an error (or an
  exception), or data with an optional description and an optional timer suggestion.
\<close>

datatype vision_result = VisionError | VisionData "string option" "timer_suggestion option"

text \<open>
  The state of the component: the React state variables, the refs, and the record of
  what the component did to its environment.
  \<^item> State: \<open>isConnected\<close> to \<open>errorMsg\<close>; \<open>apiKey\<close> is the prop. A set-state call
    changes the state variable. The functions that a render creates
    (\<^verbatim>\<open>connectToGemini\<close>, the button's \<^verbatim>\<open>handleClick\<close>, \<^verbatim>\<open>analyzeVision\<close>) read the state
    variables as constants of that render: \<open>renderedIsConnecting\<close>,
    \<open>renderedIsConnected\<close> and \<open>renderedIsCameraActive\<close> hold the values of the latest
    render, and follow the state variables at the next render only.
  \<^item> Refs: \<open>timersRef\<close> to \<open>recentTimerLabelsRef\<close>. A ref to a browser object is
    \<^const>\<open>True\<close> (or \<^const>\<open>Some\<close>) when non-null; \<open>sourcesRef\<close> holds the scheduled
    buffer sources, named by the order of their creation; \<open>videoMounted\<close> says whether
    the camera feed is mounted, which sets \<^verbatim>\<open>videoRef.current\<close> and \<^verbatim>\<open>canvasRef.current\<close>
    together, and \<open>videoSrcObject\<close> whether the video element has a stream.
  \<^item> Environment: \<open>started\<close> lists the calls \<^verbatim>\<open>bufferSource.start(t)\<close>; \<open>stopped\<close> the
    sources on which \<^verbatim>\<open>stop()\<close> was called;
    \<open>onendedSet\<close> the sources with an \<^verbatim>\<open>onended\<close> handler; \<open>onendedRuns\<close> the
    handlers that ran; \<open>stoppedTracks\<close> the media streams whose tracks were stopped;
    \<open>channelsOpened\<close> counts the calls of \<^verbatim>\<open>ai.live.connect\<close>; \<open>connectPending\<close> the
    calls of \<^verbatim>\<open>connectToGemini\<close> suspended at \<^verbatim>\<open>getUserMedia\<close> and \<open>visionRequests\<close> the
    calls of \<^verbatim>\<open>analyzeVision\<close> suspended at the analysis service; \<open>toolResponses\<close> the
    batches passed to \<^verbatim>\<open>sendToolResponse\<close>; \<open>completions\<close> the labels of the
    "Timer Complete!" toasts and \<open>timerAlerts\<close> those sent to the session; \<open>timeouts\<close>
    the pending \<^verbatim>\<open>setTimeout\<close> callbacks of the suppression window as (due time in ms,
    label key) and \<open>clockMs\<close> the wall clock; \<open>randomIds\<close> and \<open>randomCalls\<close> stand
    for \<^verbatim>\<open>Math.random().toString(36).substring(7)\<close>; \<open>localeTime\<close> for
    \<^verbatim>\<open>new Date().toLocaleTimeString()\<close>.
  The diagnostics record, the volume meter and the toasts other than the completion toast
  are presentation only and left out.
\<close>

record chef =
  apiKey :: "string option"
  isConnected :: bool
  isConnecting :: bool
  isCameraActive :: bool
  isSpeaking :: bool
  isListening :: bool
  isProcessing :: bool
  timers :: "timer list"
  logs :: "vision_log list"
  errorMsg :: "error_msg option"
  renderedIsConnecting :: bool
  renderedIsConnected :: bool
  renderedIsCameraActive :: bool
  timersRef :: "timer list"
  activeRecipeRef :: "recipe option"
  currentStepRef :: nat
  nextStartTimeRef :: rat
  audioContextRef :: bool
  inputContextRef :: bool
  sourcesRef :: "nat set"
  sessionPromiseRef :: "nat option"
  mediaStreamRef :: "nat option"
  videoMounted :: bool
  videoSrcObject :: bool
  videoIntervalRef :: bool
  visionIntervalRef :: bool
  recentTimerLabelsRef :: "string set"
  nextSourceId :: nat
  started :: "scheduled_unit list"
  stopped :: "nat set"
  onendedSet :: "nat set"
  onendedRuns :: "nat list"
  nextStreamId :: nat
  stoppedTracks :: "nat set"
  channelsOpened :: nat
  connectPending :: nat
  visionRequests :: nat
  toolResponses :: "function_response list list"
  completions :: "string list"
  timerAlerts :: "string list"
  timeouts :: "(nat \<times> string) list"
  clockMs :: nat
  randomIds :: "nat \<Rightarrow> string"
  randomCalls :: nat
  localeTime :: string

text \<open>The component as first rendered: every \<^verbatim>\<open>useState\<close> and \<^verbatim>\<open>useRef\<close> at its initial value.\<close>

definition initialChef :: "string option \<Rightarrow> (nat \<Rightarrow> string) \<Rightarrow> chef" where
  "initialChef key rnd =
     \<lparr>apiKey = key, isConnected = False, isConnecting = False, isCameraActive = False,
      isSpeaking = False, isListening = False, isProcessing = False, timers = [], logs = [],
      errorMsg = None, renderedIsConnecting = False, renderedIsConnected = False,
      renderedIsCameraActive = False, timersRef = [], activeRecipeRef = None,
      currentStepRef = 0,
      nextStartTimeRef = 0, audioContextRef = False, inputContextRef = False,
      sourcesRef = {}, sessionPromiseRef = None, mediaStreamRef = None,
      videoMounted = False, videoSrcObject = False, videoIntervalRef = False,
      visionIntervalRef = False, recentTimerLabelsRef = {}, nextSourceId = 0, started = [],
      stopped = {}, onendedSet = {}, onendedRuns = [], nextStreamId = 0, stoppedTracks = {},
      channelsOpened = 0, connectPending = 0, visionRequests = 0, toolResponses = [],
      completions = [],
      timerAlerts = [], timeouts = [], clockMs = 0, randomIds = rnd, randomCalls = 0,
      localeTime = []\<rparr>"

subsection \<open>Timers in the component\<close>

text \<open>\<^verbatim>\<open>setLogs(prev => [...prev.slice(-19), entry])\<close>.\<close>

definition pushLog :: "string \<Rightarrow> chef \<Rightarrow> chef" where
  "pushLog x s =
     s\<lparr>logs := drop (length (logs s) - 19) (logs s) @ [\<lparr>log_time = localeTime s, log_text = x\<rparr>]\<rparr>"

definition addTimer :: "string \<Rightarrow> rat \<Rightarrow> chef \<Rightarrow> chef" where
  "addTimer l durationSeconds s =
     s\<lparr>timers := addTimerTo (timers s) (randomIds s (randomCalls s)) l durationSeconds,
       randomCalls := Suc (randomCalls s)\<rparr>"

text \<open>The interval callback: the tick of the list, the toasts, and the alerts when a session is held.\<close>

definition timerTick :: "chef \<Rightarrow> chef" where
  "timerTick s =
     (let fired = map (\<lambda>i. label (timers s ! i)) (snd (tick (timers s))) in
      s\<lparr>timers := fst (tick (timers s)),
        completions := completions s @ fired,
        timerAlerts := timerAlerts s @ (if sessionPromiseRef s \<noteq> None then fired else [])\<rparr>)"

text \<open>The effect \<^verbatim>\<open>timersRef.current = timers\<close>, run after a render that changed the timers.\<close>

definition syncTimersRef :: "chef \<Rightarrow> chef" where
  "syncTimersRef s = s\<lparr>timersRef := timers s\<rparr>"

text \<open>
  A render and its commit. The closures of the new render see the current state
  variables; the camera feed is rendered when \<open>isConnected\<close> holds, so its video and
  canvas elements are mounted then and unmounted otherwise (a newly mounted video element
  has no stream); the effect above follows; and when \<open>isCameraActive\<close> has changed, the
  effect of the still-image analysis clears its interval and starts it again if the
  camera is active. The first call of \<^verbatim>\<open>analyzeVision\<close> that this effect makes, and the
  calls of the interval, are steps of their own.
\<close>

definition render :: "chef \<Rightarrow> chef" where
  "render s =
     (let s1 = syncTimersRef
                 (s\<lparr>renderedIsConnecting := isConnecting s,
                    renderedIsConnected := isConnected s,
                    renderedIsCameraActive := isCameraActive s,
                    videoMounted := isConnected s,
                    videoSrcObject := (videoSrcObject s \<and> videoMounted s \<and> isConnected s)\<rparr>)
      in if isCameraActive s = renderedIsCameraActive s then s1
         else s1\<lparr>visionIntervalRef := isCameraActive s\<rparr>)"

subsection \<open>Session teardown and connection\<close>

definition stopSession :: "bool \<Rightarrow> chef \<Rightarrow> chef" where
  "stopSession keepCamera s =
     (let s1 = s\<lparr>audioContextRef := False, inputContextRef := False,
                 stopped := stopped s \<union> sourcesRef s, sourcesRef := {},
                 videoIntervalRef := False, visionIntervalRef := False\<rparr>;
          s2 = (if \<not> keepCamera \<and> mediaStreamRef s1 \<noteq> None
                then s1\<lparr>stoppedTracks := stoppedTracks s1 \<union> set_option (mediaStreamRef s1),
                        mediaStreamRef := None, isCameraActive := False,
                        videoSrcObject := (if videoMounted s1 then False else videoSrcObject s1)\<rparr>
                else s1)
      in s2\<lparr>sessionPromiseRef := None, isConnected := False, isConnecting := False,
            isSpeaking := False, isListening := False, isProcessing := False\<rparr>)"

text \<open>
  \<^verbatim>\<open>connectToGemini\<close> up to its first \<^verbatim>\<open>await\<close>: the key check, the guard, the cleanup
  of a previous session, the new audio contexts. \<open>ctxTime\<close> is \<^verbatim>\<open>outputCtx.currentTime\<close>.
  The guard reads \<^verbatim>\<open>isConnecting\<close> and \<^verbatim>\<open>isConnected\<close> as the render that created the
  function saw them; \<^verbatim>\<open>setIsConnecting(true)\<close> changes the state variable only.
\<close>

definition connectToGemini :: "rat \<Rightarrow> chef \<Rightarrow> chef" where
  "connectToGemini ctxTime s =
     (if apiKey s = None \<or> apiKey s = Some [] then s\<lparr>errorMsg := Some NoApiKey\<rparr>
      else if renderedIsConnecting s \<or> renderedIsConnected s then s
      else (stopSession True s)
             \<lparr>isConnecting := True, errorMsg := None, logs := [],
              inputContextRef := True, audioContextRef := True,
              nextStartTimeRef := ctxTime,
              connectPending := Suc (connectPending s)\<rparr>)"

text \<open>
  The rest of \<^verbatim>\<open>connectToGemini\<close>, run when \<^verbatim>\<open>getUserMedia\<close> settles: with a stream
  (with or without a video track) the preview is set up, the channel is opened and the
  frame relay started; when both requests fail, the \<^verbatim>\<open>catch\<close> block runs.
\<close>

definition connectMedia :: "media_result \<Rightarrow> chef \<Rightarrow> chef" where
  "connectMedia r s =
     (if connectPending s = 0 then s
      else case r of
        MediaFailed m \<Rightarrow>
          stopSession False
            (s\<lparr>connectPending := connectPending s - 1,
               errorMsg := Some (ConnectException m), isConnecting := False\<rparr>)
      | MediaGranted hasVideo \<Rightarrow>
          s\<lparr>connectPending := connectPending s - 1,
            nextStreamId := Suc (nextStreamId s),
            mediaStreamRef := Some (nextStreamId s),
            videoSrcObject := (if videoMounted s then hasVideo else videoSrcObject s),
            isCameraActive := (hasVideo \<and> videoMounted s),
            channelsOpened := Suc (channelsOpened s),
            sessionPromiseRef := Some (channelsOpened s),
            videoIntervalRef := (if hasVideo then True else videoIntervalRef s)\<rparr>)"

text \<open>
  The channel callbacks \<^verbatim>\<open>onopen\<close>, \<^verbatim>\<open>onclose\<close>, \<^verbatim>\<open>onerror\<close>, and the button, which
  reads its props \<^verbatim>\<open>isConnecting\<close> and \<^verbatim>\<open>isConnected\<close> as the latest render passed them.
\<close>

definition onopen :: "chef \<Rightarrow> chef" where
  "onopen s = s\<lparr>isConnected := True, isConnecting := False, isListening := True\<rparr>"

definition onclose :: "nat option \<Rightarrow> string option \<Rightarrow> chef \<Rightarrow> chef" where
  "onclose code reason s = stopSession True (s\<lparr>errorMsg := Some (SessionClosed code reason)\<rparr>)"

definition onerror :: "string option \<Rightarrow> chef \<Rightarrow> chef" where
  "onerror m s = stopSession True (s\<lparr>errorMsg := Some (ConnectionError m)\<rparr>)"

definition onDisconnect :: "chef \<Rightarrow> chef" where
  "onDisconnect s = stopSession False s"


subsection \<open>Server messages\<close>

definition handleTurnComplete :: "chef \<Rightarrow> chef" where
  "handleTurnComplete s = s\<lparr>isSpeaking := False, isProcessing := False, isListening := True\<rparr>"

text \<open>
  The interruption branch. \<open>ctxTime\<close> is \<^verbatim>\<open>currentTime\<close> of the output context;
  \<^verbatim>\<open>audioContextRef.current?.currentTime || 0\<close> is 0 when the ref is null or the time is 0.
\<close>

definition handleInterrupted :: "rat \<Rightarrow> chef \<Rightarrow> chef" where
  "handleInterrupted ctxTime s =
     s\<lparr>isSpeaking := False, isProcessing := False, isListening := True,
       stopped := stopped s \<union> sourcesRef s, sourcesRef := {},
       nextStartTimeRef := (if audioContextRef s \<and> ctxTime \<noteq> 0 then ctxTime else 0)\<rparr>"

text \<open>The audio branch, for a decoded buffer of the given duration, at clock reading \<open>now\<close>.\<close>

definition handleAudio :: "rat \<Rightarrow> rat \<Rightarrow> chef \<Rightarrow> chef" where
  "handleAudio now duration s =
     (let cursor = (if nextStartTimeRef s < now then now else nextStartTimeRef s);
          bufferSource = nextSourceId s
      in s\<lparr>isSpeaking := True, isListening := False, isProcessing := False,
            nextSourceId := Suc bufferSource,
            started := started s @ [\<lparr>source = bufferSource, startAt = cursor,
                                     bufferDuration = duration\<rparr>],
            nextStartTimeRef := cursor + duration,
            sourcesRef := insert bufferSource (sourcesRef s),
            onendedSet := insert bufferSource (onendedSet s)\<rparr>)"

text \<open>
  The \<^verbatim>\<open>onended\<close> callback of a buffer source, and the browser's \<^verbatim>\<open>ended\<close> event, which
  is dispatched when a source has played its buffer and also after \<^verbatim>\<open>stop()\<close>, and runs
  the handler that the source carries.
\<close>

definition onended :: "nat \<Rightarrow> chef \<Rightarrow> chef" where
  "onended bufferSource s =
     (let s1 = s\<lparr>onendedRuns := onendedRuns s @ [bufferSource],
                 sourcesRef := sourcesRef s - {bufferSource}\<rparr>
      in if sourcesRef s1 = {} then s1\<lparr>isSpeaking := False, isListening := True\<rparr> else s1)"

definition endedEvent :: "nat \<Rightarrow> chef \<Rightarrow> chef" where
  "endedEvent bufferSource s = (if bufferSource \<in> onendedSet s then onended bufferSource s else s)"

text \<open>One turn of the dispatch loop: the result for a call, and the state after it.\<close>

definition dispatchCall :: "function_call \<Rightarrow> chef \<Rightarrow> tool_result \<times> chef" where
  "dispatchCall fc s =
     (if fc_name fc = ''createTimer'' then
        (ResultTimerSet (arg_label (fc_args fc)) (arg_durationSeconds (fc_args fc)),
         addTimer (arg_label (fc_args fc)) (arg_durationSeconds (fc_args fc)) s)
      else if fc_name fc = ''getTimers'' then (ResultTimers (timersRef s), s)
      else if fc_name fc = ''logObservation'' then
        (ResultText ''logged'', pushLog (arg_text (fc_args fc)) s)
      else if fc_name fc = ''getActiveRecipe'' then
        (case activeRecipeRef s of
           Some r \<Rightarrow>
             (ResultRecipe (title r) (ingredients r) (instructions r) (currentStepRef s + 1)
                (if currentStepRef s < length (instructions r)
                 then instructions r ! currentStepRef s else [])
                (length (instructions r)), s)
         | None \<Rightarrow> (ResultText ''No active recipe selected'', s))
      else (ResultText ''ok'', s))"

fun dispatchLoop ::
  "function_call list \<Rightarrow> function_response list \<Rightarrow> chef \<Rightarrow> function_response list \<times> chef" where
  "dispatchLoop [] responses s = (responses, s)"
| "dispatchLoop (fc # fcs) responses s =
     dispatchLoop fcs
       (responses @ [\<lparr>resp_id = fc_id fc, resp_name = fc_name fc,
                      response = fst (dispatchCall fc s)\<rparr>])
       (snd (dispatchCall fc s))"

definition handleToolCall :: "function_call list \<Rightarrow> chef \<Rightarrow> chef" where
  "handleToolCall functionCalls s =
     (let r = dispatchLoop functionCalls [] (s\<lparr>isProcessing := True, isListening := False\<rparr>)
      in (snd r)\<lparr>toolResponses := toolResponses (snd r) @ [fst r]\<rparr>)"

definition handleTranscription :: "string \<Rightarrow> string option \<Rightarrow> chef \<Rightarrow> chef" where
  "handleTranscription who t s =
     (case t of None \<Rightarrow> s | Some x \<Rightarrow> if x = [] then s else pushLog (who @ x) s)"

text \<open>
  \<^verbatim>\<open>onmessage\<close>: the branches in the order of the source. \<open>tInterrupt\<close> and \<open>tAudio\<close> are
  the two readings of the output clock (the second is taken after the buffer is decoded).
  One run of the handler is one step: chunks are scheduled in the order in which the
  handler runs are listed.
\<close>

definition onmessage :: "rat \<Rightarrow> rat \<Rightarrow> live_msg \<Rightarrow> chef \<Rightarrow> chef" where
  "onmessage tInterrupt tAudio msg s =
     (let s1 = (if turnComplete msg then handleTurnComplete s else s);
          s2 = (if interrupted msg then handleInterrupted tInterrupt s1 else s1);
          s3 = handleTranscription ''You: '' (inputTranscription msg) s2;
          s4 = handleTranscription ''Chef: '' (outputTranscription msg) s3;
          s5 = (case audioData msg of None \<Rightarrow> s4 | Some d \<Rightarrow> handleAudio tAudio d s4)
      in case toolCall msg of None \<Rightarrow> s5 | Some fcs \<Rightarrow> handleToolCall fcs s5)"

fun onmessages :: "(rat \<times> rat \<times> live_msg) list \<Rightarrow> chef \<Rightarrow> chef" where
  "onmessages [] s = s"
| "onmessages ((tInterrupt, tAudio, msg) # ms) s = onmessages ms (onmessage tInterrupt tAudio msg s)"

subsection \<open>Timer suggestions of the still-image analysis\<close>



fun startsWith :: "string \<Rightarrow> string \<Rightarrow> bool" where
  "startsWith x [] = True"
| "startsWith [] (c # cs) = False"
| "startsWith (d # ds) (c # cs) = (d = c \<and> startsWith ds cs)"

fun includes_str :: "string \<Rightarrow> string \<Rightarrow> bool" where
  "includes_str [] y = (y = [])"
| "includes_str (d # ds) y = (startsWith (d # ds) y \<or> includes_str ds y)"

definition hasExistingTimer :: "(string \<Rightarrow> string) \<Rightarrow> string \<Rightarrow> timer list \<Rightarrow> bool" where
  "hasExistingTimer toLowerCase labelKey ts =
     list_ex (\<lambda>t. includes_str (toLowerCase (label t)) labelKey \<or>
                  includes_str labelKey (toLowerCase (label t))) ts"

text \<open>
  The handling of \<^verbatim>\<open>data.timerSuggestion\<close> in \<^verbatim>\<open>analyzeVision\<close>: the three checks, the
  new timer, the label key remembered for 30 seconds, the log entry (its text without the
  pictograph that the source puts in front).
\<close>

definition handleTimerSuggestion ::
  "(string \<Rightarrow> string) \<Rightarrow> timer_suggestion \<Rightarrow> chef \<Rightarrow> chef" where
  "handleTimerSuggestion toLowerCase suggestion s =
     (let labelKey = toLowerCase (sug_label suggestion);
          recentlyCreated = (labelKey \<in> recentTimerLabelsRef s)
      in if \<not> hasExistingTimer toLowerCase labelKey (timersRef s) \<and> \<not> recentlyCreated \<and>
            sug_durationSeconds suggestion > 0
         then let s1 = addTimer (sug_label suggestion) (sug_durationSeconds suggestion) s;
                  s2 = s1\<lparr>recentTimerLabelsRef := insert labelKey (recentTimerLabelsRef s1),
                         timeouts := timeouts s1 @ [(clockMs s1 + 30000, labelKey)]\<rparr>
              in if sug_reason suggestion \<noteq> []
                 then pushLog (''Timer created: '' @ sug_reason suggestion) s2 else s2
         else s)"

text \<open>
  \<^verbatim>\<open>analyzeVision\<close> up to its \<^verbatim>\<open>await\<close>: it returns at once when the video or the canvas
  element is missing, when the camera flag of its render is off, when the canvas gives no
  2D context (\<open>ctx\<close> says whether \<^verbatim>\<open>canvas.getContext('2d')\<close> is non-null), or when the
  video has no width yet; otherwise a frame goes to the analysis service.
\<close>

definition analyzeVision :: "bool \<Rightarrow> nat \<Rightarrow> chef \<Rightarrow> chef" where
  "analyzeVision ctx videoWidth s =
     (if \<not> videoMounted s \<or> \<not> renderedIsCameraActive s then s
      else if \<not> ctx \<or> videoWidth = 0 then s
      else s\<lparr>visionRequests := Suc (visionRequests s)\<rparr>)"

text \<open>
  The rest of \<^verbatim>\<open>analyzeVision\<close>, run when the service settles: nothing on an error, else
  the description is logged and the suggestion handled.
\<close>

definition visionResponse :: "(string \<Rightarrow> string) \<Rightarrow> vision_result \<Rightarrow> chef \<Rightarrow> chef" where
  "visionResponse toLowerCase r s =
     (if visionRequests s = 0 then s
      else let s0 = s\<lparr>visionRequests := visionRequests s - 1\<rparr> in
        case r of
          VisionError \<Rightarrow> s0
        | VisionData description timerSuggestion \<Rightarrow>
            (let s1 = (case description of None \<Rightarrow> s0
                       | Some d \<Rightarrow> if d = [] then s0 else pushLog d s0)
             in case timerSuggestion of None \<Rightarrow> s1
                | Some sg \<Rightarrow> handleTimerSuggestion toLowerCase sg s1))"

text \<open>The wall clock moves on by \<open>ms\<close> milliseconds and the timeouts that are due run.\<close>

definition advanceClock :: "nat \<Rightarrow> chef \<Rightarrow> chef" where
  "advanceClock ms s =
     (let t = clockMs s + ms in
      s\<lparr>clockMs := t,
        recentTimerLabelsRef :=
          recentTimerLabelsRef s - set (map snd (filter (\<lambda>p. fst p \<le> t) (timeouts s))),
        timeouts := filter (\<lambda>p. \<not> fst p \<le> t) (timeouts s)\<rparr>)"

text \<open>
  The bookkeeping of the suppression window: every pending timeout belongs to a label key
  that is in \<open>recentTimerLabelsRef\<close>, and no key has two pending timeouts.
\<close>

definition timeoutsTracked :: "chef \<Rightarrow> bool" where
  "timeoutsTracked s =
     (distinct (map snd (timeouts s)) \<and>
      list_all (\<lambda>k. k \<in> recentTimerLabelsRef s) (map snd (timeouts s)))"

subsection \<open>Example inputs\<close>

text \<open>
  Concrete inputs at which the statements below are evaluated: the component as first
  rendered with a key, calls of the four tools and of an undeclared one, and the batch
  createTimer, getTimers, getActiveRecipe.
\<close>

definition chef0 :: chef where
  "chef0 = initialChef (Some ''key'') (\<lambda>n. ''t'')"

definition noArgs :: tool_args where
  "noArgs = \<lparr>arg_label = [], arg_durationSeconds = 0, arg_text = []\<rparr>"

definition callCreatePasta :: function_call where
  "callCreatePasta =
     \<lparr>fc_id = ''1'', fc_name = ''createTimer'',
      fc_args = \<lparr>arg_label = ''Pasta'', arg_durationSeconds = 600, arg_text = []\<rparr>\<rparr>"

definition callCreateZero :: function_call where
  "callCreateZero =
     \<lparr>fc_id = ''0'', fc_name = ''createTimer'',
      fc_args = \<lparr>arg_label = ''Egg'', arg_durationSeconds = 0, arg_text = []\<rparr>\<rparr>"

definition callGetTimers :: function_call where
  "callGetTimers = \<lparr>fc_id = ''2'', fc_name = ''getTimers'', fc_args = noArgs\<rparr>"

definition callGetActiveRecipe :: function_call where
  "callGetActiveRecipe = \<lparr>fc_id = ''3'', fc_name = ''getActiveRecipe'', fc_args = noArgs\<rparr>"

definition callUnknown :: function_call where
  "callUnknown = \<lparr>fc_id = ''4'', fc_name = ''setOvenTemperature'', fc_args = noArgs\<rparr>"

definition chefConnected :: chef where
  "chefConnected = onopen (connectMedia (MediaGranted True) (connectToGemini 0 chef0))"

definition audioMsg :: "rat \<Rightarrow> live_msg" where
  "audioMsg d =
     \<lparr>turnComplete = False, interrupted = False, inputTranscription = None,
      outputTranscription = None, audioData = Some d, toolCall = None\<rparr>"

definition interruptMsg :: live_msg where
  "interruptMsg =
     \<lparr>turnComplete = False, interrupted = True, inputTranscription = None,
      outputTranscription = None, audioData = None, toolCall = None\<rparr>"

definition toolMsg :: "function_call list \<Rightarrow> live_msg" where
  "toolMsg fcs =
     \<lparr>turnComplete = False, interrupted = False, inputTranscription = None,
      outputTranscription = None, audioData = None, toolCall = Some fcs\<rparr>"




text \<open>
  A component that was connected, closed by the remote side, and connected again.
\<close>

definition chefClosed :: chef where
  "chefClosed = render (onclose (Some 1006) None (render chefConnected))"

definition chefReconnected :: chef where
  "chefReconnected =
     render (onopen (connectMedia (MediaGranted True) (connectToGemini 0 chefClosed)))"

definition pastaBatch :: "function_call list" where
  "pastaBatch = [callCreatePasta, callGetTimers, callGetActiveRecipe]"

section \<open>Properties of the timer engine\<close>

lemma tick_fst: "fst (tick ts) = map (\<lambda>t. fst (tickTimer t)) ts"
proof (cases "list_ex (\<lambda>t. status t = Running) ts")
  case True
  then show ?thesis by (simp add: tick_def)
next
  case False
  then have "\<forall>t\<in>set ts. status t \<noteq> Running" by (simp add: list_ex_iff)
  then have "map (\<lambda>t. fst (tickTimer t)) ts = ts"
    by (induction ts) (simp_all add: tickTimer_def)
  with False show ?thesis by (simp add: tick_def)
qed

lemma tick_snd:
  "i \<in> set (snd (tick ts)) \<Longrightarrow> i < length ts \<and> snd (tickTimer (ts ! i))"
  by (auto simp: tick_def split: if_splits)

lemma length_tick: "length (fst (tick ts)) = length ts"
  by (simp add: tick_fst)

lemma nth_tick: "i < length ts \<Longrightarrow> fst (tick ts) ! i = fst (tickTimer (ts ! i))"
  by (simp add: tick_fst)

lemma length_apply_op: "length ts \<le> length (apply_op x ts)"
  by (cases x) (simp_all add: length_tick toggleTimer_def resetTimer_def addTimerTo_def)

lemma tickTimer_id: "timer_id (fst (tickTimer t)) = timer_id t"
  by (simp add: tickTimer_def Let_def)

lemma apply_op_id: "i < length ts \<Longrightarrow> timer_id (apply_op x ts ! i) = timer_id (ts ! i)"
  by (cases x) (simp_all add: nth_tick tickTimer_id toggleTimer_def resetTimer_def addTimerTo_def nth_append)

lemma tick_snd_iff: "i \<in> set (snd (tick ts)) \<longleftrightarrow> i < length ts \<and> snd (tickTimer (ts ! i))"
proof (cases "list_ex (\<lambda>t. status t = Running) ts")
  case True
  then show ?thesis by (auto simp: tick_def)
next
  case False
  then have "\<forall>t\<in>set ts. status t \<noteq> Running" by (simp add: list_ex_iff)
  then have "i < length ts \<longrightarrow> \<not> snd (tickTimer (ts ! i))"
    by (simp add: tickTimer_def)
  with False show ?thesis by (auto simp: tick_def)
qed

lemma tickTimer_finished_iff:
  "status (fst (tickTimer t)) = Finished \<longleftrightarrow>
     status t = Finished \<or>
     (status t = Running \<and> 0 < durationRemaining t \<and> durationRemaining t \<le> 1)"
  by (auto simp: tickTimer_def Let_def)

lemma tickTimer_fires_iff:
  "snd (tickTimer t) \<longleftrightarrow>
     status t = Running \<and> 0 < durationRemaining t \<and> durationRemaining t \<le> 1"
  by (auto simp: tickTimer_def Let_def)

lemma enters_tick:
  assumes "i < length ts" "status (ts ! i) = Running" "0 < durationRemaining (ts ! i)"
    "durationRemaining (ts ! i) \<le> 1"
  shows "status (apply_op OpTick ts ! i) = Finished"
    and "durationRemaining (apply_op OpTick ts ! i) = 0"
    and "i \<in> set (snd (tick ts))"
  using assms by (simp_all add: nth_tick tick_snd_iff tickTimer_def Let_def)

lemma enters_step:
  assumes "i < length ts" "status (ts ! i) \<noteq> Finished" "status (apply_op x ts ! i) = Finished"
  shows "x = OpTick \<and> status (ts ! i) = Running \<and> 0 < durationRemaining (ts ! i) \<and>
         durationRemaining (ts ! i) \<le> 1 \<and> durationRemaining (apply_op x ts ! i) = 0 \<and>
         i \<in> set (snd (tick ts))"
proof (cases x)
  case OpTick
  with assms show ?thesis
    by (auto simp: nth_tick tick_snd_iff tickTimer_def Let_def split: if_splits)
next
  case (OpPause j)
  with assms show ?thesis by (auto simp: toggleTimer_def split: if_splits)
next
  case (OpResume j)
  with assms show ?thesis by (auto simp: toggleTimer_def split: if_splits)
next
  case (OpReset j)
  with assms show ?thesis by (auto simp: resetTimer_def split: if_splits)
next
  case (OpCreate j l d)
  with assms show ?thesis by (auto simp: addTimerTo_def nth_append)
qed

lemma created_not_finished:
  assumes "\<not> i < length ts" "i < length (apply_op x ts)"
  shows "status (apply_op x ts ! i) = Running"
proof (cases x)
  case (OpCreate j l d)
  with assms have "i = length ts" by (simp add: addTimerTo_def)
  with OpCreate show ?thesis by (simp add: addTimerTo_def newTimer_def)
qed (use assms in \<open>simp_all add: length_tick toggleTimer_def resetTimer_def\<close>)

lemma spent_stays:
  assumes "i < length ts" "durationRemaining (ts ! i) \<le> 0" "x \<noteq> OpReset (timer_id (ts ! i))"
  shows "durationRemaining (apply_op x ts ! i) \<le> 0 \<and>
         (status (apply_op x ts ! i) = Finished \<longrightarrow> status (ts ! i) = Finished)"
proof (cases x)
  case OpTick
  with assms show ?thesis by (auto simp: nth_tick tickTimer_def Let_def)
next
  case (OpPause j)
  with assms show ?thesis by (auto simp: toggleTimer_def)
next
  case (OpResume j)
  with assms show ?thesis by (auto simp: toggleTimer_def)
next
  case (OpReset j)
  with assms show ?thesis by (auto simp: resetTimer_def)
next
  case (OpCreate j l d)
  with assms show ?thesis by (auto simp: addTimerTo_def nth_append)
qed

lemma spent_never_finishes:
  "i < length ts \<Longrightarrow> durationRemaining (ts ! i) \<le> 0 \<Longrightarrow>
   \<forall>x\<in>set xs. x \<noteq> OpReset (timer_id (ts ! i)) \<Longrightarrow> finishes i ts xs = 0"
proof (induction xs arbitrary: ts)
  case Nil
  then show ?case by simp
next
  case (Cons x xs)
  let ?ts' = "apply_op x ts"
  have x: "x \<noteq> OpReset (timer_id (ts ! i))" using Cons.prems(3) by simp
  have len: "i < length ?ts'" using Cons.prems(1) length_apply_op [of ts x] by simp
  have keep: "durationRemaining (?ts' ! i) \<le> 0"
    and fin: "status (?ts' ! i) = Finished \<longrightarrow> status (ts ! i) = Finished"
    using spent_stays [OF Cons.prems(1,2) x] by simp_all
  have same: "timer_id (?ts' ! i) = timer_id (ts ! i)"
    using Cons.prems(1) by (rule apply_op_id)
  have "finishes i ?ts' xs = 0"
    using Cons.IH [OF len keep] Cons.prems(3) same by simp
  moreover have "\<not> entersFinished i ts ?ts'"
    using fin Cons.prems(1) by (simp add: entersFinished_def)
  ultimately show ?case by simp
qed

lemma finishes_le_1:
  "i < length ts \<Longrightarrow> \<forall>x\<in>set xs. x \<noteq> OpReset (timer_id (ts ! i)) \<Longrightarrow> finishes i ts xs \<le> 1"
proof (induction xs arbitrary: ts)
  case Nil
  then show ?case by simp
next
  case (Cons x xs)
  let ?ts' = "apply_op x ts"
  have len: "i < length ?ts'" using Cons.prems(1) length_apply_op [of ts x] by simp
  have same: "timer_id (?ts' ! i) = timer_id (ts ! i)"
    using Cons.prems(1) by (rule apply_op_id)
  have rest: "\<forall>y\<in>set xs. y \<noteq> OpReset (timer_id (?ts' ! i))"
    using Cons.prems(2) same by simp
  show ?case
  proof (cases "entersFinished i ts ?ts'")
    case True
    then have "status (ts ! i) \<noteq> Finished" "status (?ts' ! i) = Finished"
      using Cons.prems(1) by (simp_all add: entersFinished_def)
    then have "durationRemaining (?ts' ! i) = 0"
      using enters_step [OF Cons.prems(1)] by blast
    then have "finishes i ?ts' xs = 0"
      using spent_never_finishes [OF len _ rest] by simp
    with True show ?thesis by simp
  next
    case False
    with Cons.IH [OF len rest] show ?thesis by simp
  qed
qed

lemma finished_inv_step:
  assumes "\<forall>t\<in>set ts. status t = Finished \<longrightarrow> durationRemaining t = 0"
  shows "\<forall>t\<in>set (apply_op x ts). status t = Finished \<longrightarrow> durationRemaining t = 0"
proof (cases x)
  case OpTick
  with assms show ?thesis by (auto simp: tick_fst tickTimer_def Let_def)
next
  case (OpPause j)
  with assms show ?thesis by (auto simp: toggleTimer_def)
next
  case (OpResume j)
  with assms show ?thesis by (auto simp: toggleTimer_def)
next
  case (OpReset j)
  with assms show ?thesis by (auto simp: resetTimer_def)
next
  case (OpCreate j l d)
  with assms show ?thesis by (auto simp: addTimerTo_def newTimer_def)
qed

lemma finished_inv_run:
  "\<forall>t\<in>set ts. status t = Finished \<longrightarrow> durationRemaining t = 0 \<Longrightarrow>
   \<forall>t\<in>set (apply_ops xs ts). status t = Finished \<longrightarrow> durationRemaining t = 0"
proof (induction xs arbitrary: ts)
  case Nil
  then show ?case by simp
next
  case (Cons x xs)
  from Cons.IH [OF finished_inv_step [OF Cons.prems]] show ?case by simp
qed

lemma ticks_finish_once:
  "i < length ts \<Longrightarrow> status (ts ! i) = Running \<Longrightarrow> 0 < durationRemaining (ts ! i) \<Longrightarrow>
   finishes i ts (replicate n OpTick)
     = (if nat \<lceil>durationRemaining (ts ! i)\<rceil> \<le> n then 1 else 0)"
proof (induction n arbitrary: ts)
  case 0
  from "0.prems"(3) have "0 < \<lceil>durationRemaining (ts ! i)\<rceil>" by simp
  then show ?case by simp
next
  case (Suc n)
  let ?r = "durationRemaining (ts ! i)"
  let ?ts' = "apply_op OpTick ts"
  have len: "i < length ?ts'" using Suc.prems(1) by (simp add: length_tick)
  show ?case
  proof (cases "?r \<le> 1")
    case True
    note e = enters_tick [OF Suc.prems True]
    have "\<lceil>?r\<rceil> = 1"
      using Suc.prems(3) True by (simp add: ceiling_eq_iff)
    moreover have "entersFinished i ts ?ts'"
      using e(1) len Suc.prems(2) by (simp add: entersFinished_def)
    moreover have "finishes i ?ts' (replicate n OpTick) = 0"
      using e(2) by (intro spent_never_finishes [OF len]) simp_all
    ultimately show ?thesis by simp
  next
    case False
    then have big: "1 < ?r" by simp
    have run: "status (?ts' ! i) = Running" and rem: "durationRemaining (?ts' ! i) = ?r - 1"
      using Suc.prems(1,2) big by (simp_all add: nth_tick tickTimer_def Let_def)
    have pos: "0 < durationRemaining (?ts' ! i)" using big rem by simp
    have stay: "\<not> entersFinished i ts ?ts'"
      using run by (simp add: entersFinished_def)
    have cl: "\<lceil>?r - 1\<rceil> = \<lceil>?r\<rceil> - 1" by (rule ceiling_diff_one)
    have "1 < \<lceil>?r\<rceil>" using big by (simp add: less_ceiling_iff)
    then have eq: "nat \<lceil>?r - 1\<rceil> \<le> n \<longleftrightarrow> nat \<lceil>?r\<rceil> \<le> Suc n"
      unfolding cl by linarith
    have "finishes i ts (replicate (Suc n) OpTick) = finishes i ?ts' (replicate n OpTick)"
      using stay by simp
    also have "\<dots> = (if nat \<lceil>durationRemaining (?ts' ! i)\<rceil> \<le> n then 1 else 0)"
      by (rule Suc.IH [OF len run pos])
    also have "\<dots> = (if nat \<lceil>?r\<rceil> \<le> Suc n then 1 else 0)"
      unfolding rem using eq by simp
    finally show ?thesis .
  qed
qed

text \<open>
  Claim C5, as the code has it. A timer enters \<^const>\<open>Finished\<close> exactly when a tick finds it
  running with a remaining duration that is positive and at most 1, that is, when the
  remaining duration reaches 0 while running; its remaining duration is 0 afterwards and
  the completion is emitted for it in that tick. Under ticks alone, a running timer with
  positive remaining duration \<open>r\<close> enters \<^const>\<open>Finished\<close> exactly once, at tick number
  \<open>\<lceil>r\<rceil>\<close>. In a run of ticks, pauses, resumes, resets and creations that does not reset
  it, it enters \<^const>\<open>Finished\<close> at most once; and every timer of a run that starts from
  the empty list has remaining duration 0 whenever it is finished. A reset (which the
  timer card offers on finished timers) starts the countdown again, so "at most once per
  Timer" holds between resets only.
\<close>

theorem finished_once_between_resets:
  "i < length ts \<Longrightarrow>
     (status (ts ! i) \<noteq> Finished \<and> status (apply_op x ts ! i) = Finished \<longleftrightarrow>
        x = OpTick \<and> status (ts ! i) = Running \<and> 0 < durationRemaining (ts ! i) \<and>
        durationRemaining (ts ! i) \<le> 1) \<and>
     (status (ts ! i) \<noteq> Finished \<and> status (apply_op x ts ! i) = Finished \<longrightarrow>
        durationRemaining (apply_op x ts ! i) = 0 \<and> i \<in> set (snd (tick ts))) \<and>
     (status (ts ! i) = Running \<and> 0 < durationRemaining (ts ! i) \<longrightarrow>
        finishes i ts (replicate n OpTick)
          = (if nat \<lceil>durationRemaining (ts ! i)\<rceil> \<le> n then 1 else 0)) \<and>
     ((\<forall>y\<in>set xs. y \<noteq> OpReset (timer_id (ts ! i))) \<longrightarrow> finishes i ts xs \<le> 1) \<and>
     (\<forall>t\<in>set (apply_ops xs []). status t = Finished \<longrightarrow> durationRemaining t = 0)"
proof -
  assume i: "i < length ts"
  have a: "status (ts ! i) \<noteq> Finished \<and> status (apply_op x ts ! i) = Finished \<longleftrightarrow>
        x = OpTick \<and> status (ts ! i) = Running \<and> 0 < durationRemaining (ts ! i) \<and>
        durationRemaining (ts ! i) \<le> 1"
    using enters_step [OF i, of x] enters_tick(1) [OF i] by auto
  have b: "status (ts ! i) \<noteq> Finished \<and> status (apply_op x ts ! i) = Finished \<longrightarrow>
        durationRemaining (apply_op x ts ! i) = 0 \<and> i \<in> set (snd (tick ts))"
    using enters_step [OF i, of x] by blast
  have c: "status (ts ! i) = Running \<and> 0 < durationRemaining (ts ! i) \<longrightarrow>
        finishes i ts (replicate n OpTick)
          = (if nat \<lceil>durationRemaining (ts ! i)\<rceil> \<le> n then 1 else 0)"
    using ticks_finish_once [OF i] by blast
  from a b c finishes_le_1 [OF i, of xs] finished_inv_run [of "[]" xs]
  show ?thesis by simp
qed

text \<open>
  The statement at a one-second timer, which the first tick finishes, and at a timer of
  one and a half seconds, which three ticks finish once, as does a run with a pause and a
  resume.
\<close>

theorem finished_once_between_resets_witness:
  "(0::nat) < length [newTimer ''a'' ''Egg'' 1] \<and>
   status ([newTimer ''a'' ''Egg'' 1] ! 0) = Running \<and>
   0 < durationRemaining ([newTimer ''a'' ''Egg'' 1] ! 0) \<and>
   durationRemaining ([newTimer ''a'' ''Egg'' 1] ! 0) \<le> 1 \<and>
   status (apply_op OpTick [newTimer ''a'' ''Egg'' 1] ! 0) = Finished \<and>
   durationRemaining (apply_op OpTick [newTimer ''a'' ''Egg'' 1] ! 0) = 0 \<and>
   0 \<in> set (snd (tick [newTimer ''a'' ''Egg'' 1])) \<and>
   (0::nat) < length [newTimer ''b'' ''Rice'' (3/2)] \<and>
   status ([newTimer ''b'' ''Rice'' (3/2)] ! 0) = Running \<and>
   0 < durationRemaining ([newTimer ''b'' ''Rice'' (3/2)] ! 0) \<and>
   finishes 0 [newTimer ''b'' ''Rice'' (3/2)] (replicate 1 OpTick) = 0 \<and>
   finishes 0 [newTimer ''b'' ''Rice'' (3/2)] (replicate 3 OpTick) = 1 \<and>
   list_all (\<lambda>y. y \<noteq> OpReset (timer_id ([newTimer ''b'' ''Rice'' (3/2)] ! 0)))
     [OpTick, OpPause ''b'', OpResume ''b'', OpTick] \<and>
   finishes 0 [newTimer ''b'' ''Rice'' (3/2)] [OpTick, OpPause ''b'', OpResume ''b'', OpTick] \<le> 1"
proof -
  let ?a = "[newTimer ''a'' ''Egg'' 1]"
  let ?b = "[newTimer ''b'' ''Rice'' (3/2)]"
  let ?xs = "[OpTick, OpPause ''b'', OpResume ''b'', OpTick]"
  have ha: "(0::nat) < length ?a" "status (?a ! 0) = Running" "status (?a ! 0) \<noteq> Finished"
    "0 < durationRemaining (?a ! 0)" "durationRemaining (?a ! 0) \<le> 1"
    by (simp_all add: newTimer_def)
  have hb: "(0::nat) < length ?b" "status (?b ! 0) = Running"
    "0 < durationRemaining (?b ! 0)" "durationRemaining (?b ! 0) = 3/2"
    "\<forall>y\<in>set ?xs. y \<noteq> OpReset (timer_id (?b ! 0))"
    by (simp_all add: newTimer_def)
  have "\<lceil>3/2 :: rat\<rceil> = 2"
    by (rule ceiling_unique) simp_all
  then have c: "nat \<lceil>3/2 :: rat\<rceil> = 2" by simp
  note wa = finished_once_between_resets [OF ha(1), of OpTick 0 "[]"]
  from wa ha have fa: "status (apply_op OpTick ?a ! 0) = Finished" by blast
  with wa ha(3) have fb: "durationRemaining (apply_op OpTick ?a ! 0) = 0"
    "0 \<in> set (snd (tick ?a))" by blast+
  note w1 = finished_once_between_resets [OF hb(1), of OpTick 1 ?xs]
  from w1 hb(2,3) have "finishes 0 ?b (replicate 1 OpTick)
      = (if nat \<lceil>durationRemaining (?b ! 0)\<rceil> \<le> 1 then 1 else 0)" by blast
  then have f1: "finishes 0 ?b (replicate 1 OpTick) = 0" by (simp only: hb(4) c) simp
  note w3 = finished_once_between_resets [OF hb(1), of OpTick 3 ?xs]
  from w3 hb(2,3) have "finishes 0 ?b (replicate 3 OpTick)
      = (if nat \<lceil>durationRemaining (?b ! 0)\<rceil> \<le> 3 then 1 else 0)" by blast
  then have f3: "finishes 0 ?b (replicate 3 OpTick) = 1" by (simp only: hb(4) c) simp
  from w3 hb(5) have f4: "finishes 0 ?b ?xs \<le> 1" by blast
  have l: "list_all (\<lambda>y. y \<noteq> OpReset (timer_id (?b ! 0))) ?xs"
    using hb(5) by (simp only: list_all_iff)
  from ha fa fb hb(1,2,3) f1 f3 l f4 show ?thesis by blast
qed

text \<open>
  Claim C5 as stated fails: a one-second timer that is created, ticked, reset and ticked
  enters \<^const>\<open>Finished\<close> twice.
\<close>

theorem finished_twice_counterexample:
  "finishes 0 [] [OpCreate ''a'' ''Egg'' 1, OpTick, OpReset ''a'', OpTick] = 2"
  by (simp add: entersFinished_def addTimerTo_def newTimer_def tick_def tickTimer_def
      resetTimer_def)

text \<open>
  Claim C6, as the code has it. A tick keeps the list's length; a running timer's
  remaining duration becomes its predecessor, clamped at 0; a paused or finished timer
  is the same record after the tick; and a running timer whose remaining duration is not
  negative does not gain time. The last part needs the bound: the clamp lifts a negative
  remaining duration to 0.
\<close>

theorem tick_decrements_running_only:
  "i < length ts \<Longrightarrow>
     length (fst (tick ts)) = length ts \<and>
     (status (ts ! i) = Running \<longrightarrow>
        durationRemaining (fst (tick ts) ! i) = max 0 (durationRemaining (ts ! i) - 1)) \<and>
     (status (ts ! i) \<noteq> Running \<longrightarrow> fst (tick ts) ! i = ts ! i) \<and>
     (status (ts ! i) = Running \<and> 0 \<le> durationRemaining (ts ! i) \<longrightarrow>
        durationRemaining (fst (tick ts) ! i) \<le> durationRemaining (ts ! i))"
  by (auto simp: tick_fst tickTimer_def Let_def)

text \<open>
  The statement at a running timer with five seconds left and a paused one.
\<close>

theorem tick_decrements_running_only_witness:
  "(1::nat) < length [newTimer ''a'' ''Egg'' 5, newTimer ''b'' ''Rice'' 1\<lparr>status := Paused\<rparr>] \<and>
   durationRemaining
     (fst (tick [newTimer ''a'' ''Egg'' 5, newTimer ''b'' ''Rice'' 1\<lparr>status := Paused\<rparr>]) ! 0) = 4 \<and>
   fst (tick [newTimer ''a'' ''Egg'' 5, newTimer ''b'' ''Rice'' 1\<lparr>status := Paused\<rparr>]) ! 1
     = newTimer ''b'' ''Rice'' 1\<lparr>status := Paused\<rparr>"
  using tick_decrements_running_only
    [of 0 "[newTimer ''a'' ''Egg'' 5, newTimer ''b'' ''Rice'' 1\<lparr>status := Paused\<rparr>]"]
    tick_decrements_running_only
    [of 1 "[newTimer ''a'' ''Egg'' 5, newTimer ''b'' ''Rice'' 1\<lparr>status := Paused\<rparr>]"]
  by (simp add: newTimer_def)

text \<open>
  Claim C6 as stated fails for a running timer created with duration \<open>-5\<close> (createTimer
  passes the remote argument on unchecked): the tick raises its remaining duration to 0.
\<close>

theorem tick_raises_negative_counterexample:
  "status ([newTimer ''a'' ''Egg'' (- 5)] ! 0) = Running \<and>
   \<not> durationRemaining (fst (tick [newTimer ''a'' ''Egg'' (- 5)]) ! 0)
       \<le> durationRemaining ([newTimer ''a'' ''Egg'' (- 5)] ! 0)"
  by (simp add: newTimer_def tick_def tickTimer_def)

lemma spent_running_tick:
  assumes "k < length ts" "status (ts ! k) = Running" "durationRemaining (ts ! k) \<le> 0"
  shows "status (fst (tick ts) ! k) = Running" "durationRemaining (fst (tick ts) ! k) = 0"
    "k \<notin> set (snd (tick ts))"
  using assms tick_snd [of k ts] by (auto simp: nth_tick tickTimer_def Let_def)

lemma timers_timerTick: "timers (timerTick s) = fst (tick (timers s))"
  by (simp add: timerTick_def Let_def)

lemma spent_running_ticks:
  assumes "k < length (timers s)" "status (timers s ! k) = Running"
    "durationRemaining (timers s ! k) \<le> 0"
  shows "k < length (timers ((timerTick ^^ n) s)) \<and>
         status (timers ((timerTick ^^ n) s) ! k) = Running \<and>
         durationRemaining (timers ((timerTick ^^ n) s) ! k)
           = (if n = 0 then durationRemaining (timers s ! k) else 0)"
proof (induction n)
  case 0
  with assms show ?case by simp
next
  case (Suc n)
  let ?s = "(timerTick ^^ n) s"
  from Suc have k: "k < length (timers ?s)" and r: "status (timers ?s ! k) = Running"
    and d: "durationRemaining (timers ?s ! k) \<le> 0"
    using assms(3) by (simp_all split: if_splits)
  show ?case
    using spent_running_tick(1,2) [OF k r d] k
    by (simp add: timers_timerTick length_tick)
qed

lemma nonpositive_stays:
  assumes "i < length ts" "durationRemaining (ts ! i) \<le> 0" "durationOriginal (ts ! i) \<le> 0"
  shows "durationRemaining (apply_op x ts ! i) \<le> 0 \<and> durationOriginal (apply_op x ts ! i) \<le> 0 \<and>
         (status (apply_op x ts ! i) = Finished \<longrightarrow> status (ts ! i) = Finished)"
proof (cases x)
  case OpTick
  with assms show ?thesis by (auto simp: nth_tick tickTimer_def Let_def)
next
  case (OpPause j)
  with assms show ?thesis by (auto simp: toggleTimer_def)
next
  case (OpResume j)
  with assms show ?thesis by (auto simp: toggleTimer_def)
next
  case (OpReset j)
  with assms show ?thesis by (auto simp: resetTimer_def)
next
  case (OpCreate j l d)
  with assms show ?thesis by (auto simp: addTimerTo_def nth_append)
qed

lemma nonpositive_never_finishes:
  "i < length ts \<Longrightarrow> durationRemaining (ts ! i) \<le> 0 \<Longrightarrow> durationOriginal (ts ! i) \<le> 0 \<Longrightarrow>
   finishes i ts xs = 0"
proof (induction xs arbitrary: ts)
  case Nil
  then show ?case by simp
next
  case (Cons x xs)
  let ?ts' = "apply_op x ts"
  have len: "i < length ?ts'" using Cons.prems(1) length_apply_op [of ts x] by simp
  note keep = nonpositive_stays [OF Cons.prems, of x]
  have "finishes i ?ts' xs = 0"
    using Cons.IH [OF len] keep by simp
  moreover have "\<not> entersFinished i ts ?ts'"
    using keep Cons.prems(1) by (simp add: entersFinished_def)
  ultimately show ?case by simp
qed

text \<open>
  Claim C10. A createTimer call whose duration is 0 or negative appends a running timer
  with that remaining duration; after any number \<open>n\<close> of ticks the timer is still
  running, its remaining duration is 0 (the argument itself for \<open>n = 0\<close>), and the next
  tick emits no completion for it; in no run of ticks, pauses, resumes, resets and
  creations does it enter \<^const>\<open>Finished\<close>; and the completion branch of a tick is
  taken only for a timer whose remaining duration was positive.
\<close>

theorem nonpositive_timer_never_finishes:
  assumes "fc_name fc = ''createTimer''" and "arg_durationSeconds (fc_args fc) \<le> 0"
  shows "timers (snd (dispatchCall fc s))
           = timers s @ [newTimer (randomIds s (randomCalls s)) (arg_label (fc_args fc))
                           (arg_durationSeconds (fc_args fc))] \<and>
         length (timers s) < length (timers ((timerTick ^^ n) (snd (dispatchCall fc s)))) \<and>
         status (timers ((timerTick ^^ n) (snd (dispatchCall fc s))) ! length (timers s)) = Running \<and>
         durationRemaining (timers ((timerTick ^^ n) (snd (dispatchCall fc s))) ! length (timers s))
           = (if n = 0 then arg_durationSeconds (fc_args fc) else 0) \<and>
         length (timers s) \<notin> set (snd (tick (timers ((timerTick ^^ n) (snd (dispatchCall fc s)))))) \<and>
         finishes (length (timers s)) (timers (snd (dispatchCall fc s))) xs = 0 \<and>
         (snd (tickTimer t) \<longrightarrow> 0 < durationRemaining t)"
proof -
  have fires: "snd (tickTimer t) \<longrightarrow> 0 < durationRemaining t"
    by (simp add: tickTimer_def Let_def)
  let ?s1 = "snd (dispatchCall fc s)"
  let ?k = "length (timers s)"
  have t: "timers ?s1 = timers s @ [newTimer (randomIds s (randomCalls s)) (arg_label (fc_args fc))
                           (arg_durationSeconds (fc_args fc))]"
    using assms(1) by (simp add: dispatchCall_def addTimer_def addTimerTo_def)
  have k: "?k < length (timers ?s1)" and r: "status (timers ?s1 ! ?k) = Running"
    and d: "durationRemaining (timers ?s1 ! ?k) \<le> 0"
    and e: "durationRemaining (timers ?s1 ! ?k) = arg_durationSeconds (fc_args fc)"
    and o: "durationOriginal (timers ?s1 ! ?k) \<le> 0"
    using assms(2) by (simp_all add: t newTimer_def)
  note run = spent_running_ticks [OF k r d, of n]
  have "durationRemaining (timers ((timerTick ^^ n) ?s1) ! ?k) \<le> 0"
    using run d by (simp split: if_splits)
  with run have "?k \<notin> set (snd (tick (timers ((timerTick ^^ n) ?s1))))"
    using spent_running_tick(3) by blast
  with t run e fires nonpositive_never_finishes [OF k d o, of xs] show ?thesis by simp
qed

text \<open>
  The statement for a createTimer call with duration 0 on the initial component: after
  three ticks, and for a run with a reset.
\<close>

theorem nonpositive_timer_never_finishes_witness:
  "fc_name callCreateZero = ''createTimer'' \<and>
   arg_durationSeconds (fc_args callCreateZero) \<le> 0 \<and>
   timers (snd (dispatchCall callCreateZero chef0)) = [newTimer ''t'' ''Egg'' 0] \<and>
   status (timers ((timerTick ^^ 3) (snd (dispatchCall callCreateZero chef0))) ! 0) = Running \<and>
   durationRemaining (timers ((timerTick ^^ 3) (snd (dispatchCall callCreateZero chef0))) ! 0) = 0 \<and>
   0 \<notin> set (snd (tick (timers ((timerTick ^^ 3) (snd (dispatchCall callCreateZero chef0)))))) \<and>
   finishes 0 (timers (snd (dispatchCall callCreateZero chef0)))
     [OpTick, OpReset ''t'', OpTick, OpPause ''t'', OpResume ''t'', OpTick] = 0"
proof -
  have a: "fc_name callCreateZero = ''createTimer''"
    and b: "arg_durationSeconds (fc_args callCreateZero) \<le> 0"
    and c: "arg_durationSeconds (fc_args callCreateZero) = 0"
      "arg_label (fc_args callCreateZero) = ''Egg''"
    by (simp_all add: callCreateZero_def)
  have d: "timers chef0 = []" "randomIds chef0 (randomCalls chef0) = ''t''"
    by (simp_all add: chef0_def initialChef_def)
  from nonpositive_timer_never_finishes [OF a b, where s = chef0 and n = 3
      and xs = "[OpTick, OpReset ''t'', OpTick, OpPause ''t'', OpResume ''t'', OpTick]"
      and t = "newTimer ''t'' ''Egg'' 0"]
  show ?thesis by (clarsimp simp add: a c d simp del: finishes.simps)
qed

section \<open>Properties of the tool dispatcher\<close>


lemma dispatchCall_frame:
  "timersRef (snd (dispatchCall fc s)) = timersRef s"
  "nextStartTimeRef (snd (dispatchCall fc s)) = nextStartTimeRef s"
  "started (snd (dispatchCall fc s)) = started s"
  "sourcesRef (snd (dispatchCall fc s)) = sourcesRef s"
  "stopped (snd (dispatchCall fc s)) = stopped s"
  "nextSourceId (snd (dispatchCall fc s)) = nextSourceId s"
  "audioContextRef (snd (dispatchCall fc s)) = audioContextRef s"
  "toolResponses (snd (dispatchCall fc s)) = toolResponses s"
  by (simp_all add: dispatchCall_def addTimer_def pushLog_def split: option.split)

lemma dispatchLoop_frame:
  "timersRef (snd (dispatchLoop fcs acc s)) = timersRef s \<and>
   nextStartTimeRef (snd (dispatchLoop fcs acc s)) = nextStartTimeRef s \<and>
   started (snd (dispatchLoop fcs acc s)) = started s \<and>
   sourcesRef (snd (dispatchLoop fcs acc s)) = sourcesRef s \<and>
   stopped (snd (dispatchLoop fcs acc s)) = stopped s \<and>
   nextSourceId (snd (dispatchLoop fcs acc s)) = nextSourceId s \<and>
   audioContextRef (snd (dispatchLoop fcs acc s)) = audioContextRef s \<and>
   toolResponses (snd (dispatchLoop fcs acc s)) = toolResponses s"
  by (induction fcs arbitrary: acc s) (simp_all add: dispatchCall_frame)

lemma dispatchLoop_ids:
  "map resp_id (fst (dispatchLoop fcs acc s)) = map resp_id acc @ map fc_id fcs \<and>
   map resp_name (fst (dispatchLoop fcs acc s)) = map resp_name acc @ map fc_name fcs"
  by (induction fcs arbitrary: acc s) simp_all

lemma dispatchLoop_length: "length (fst (dispatchLoop fcs acc s)) = length acc + length fcs"
  using dispatchLoop_ids [of fcs acc s, THEN conjunct1, THEN arg_cong, of length] by simp

lemma dispatchLoop_keeps_acc:
  "j < length acc \<Longrightarrow> fst (dispatchLoop fcs acc s) ! j = acc ! j"
  by (induction fcs arbitrary: acc s) (simp_all add: nth_append)

lemma dispatchLoop_nth:
  "i < length fcs \<Longrightarrow>
   \<exists>s'. timersRef s' = timersRef s \<and>
        fst (dispatchLoop fcs acc s) ! (length acc + i)
          = \<lparr>resp_id = fc_id (fcs ! i), resp_name = fc_name (fcs ! i),
             response = fst (dispatchCall (fcs ! i) s')\<rparr>"
proof (induction fcs arbitrary: acc s i)
  case Nil
  then show ?case by simp
next
  case (Cons fc fcs)
  let ?acc = "acc @ [\<lparr>resp_id = fc_id fc, resp_name = fc_name fc, response = fst (dispatchCall fc s)\<rparr>]"
  show ?case
  proof (cases i)
    case 0
    have "fst (dispatchLoop fcs ?acc (snd (dispatchCall fc s))) ! length acc = ?acc ! length acc"
      by (rule dispatchLoop_keeps_acc) simp
    with 0 show ?thesis by (intro exI [of _ s]) simp
  next
    case (Suc j)
    with Cons.prems have j: "j < length fcs" by simp
    from Cons.IH [OF j, of "snd (dispatchCall fc s)" ?acc]
    show ?thesis using Suc by (simp add: dispatchCall_frame)
  qed
qed

lemma getTimers_result:
  "fc_name fc = ''getTimers'' \<Longrightarrow> fst (dispatchCall fc s) = ResultTimers (timersRef s)"
  by (simp add: dispatchCall_def)

lemma unknown_result:
  "fc_name fc \<notin> {''createTimer'', ''getTimers'', ''logObservation'', ''getActiveRecipe''} \<Longrightarrow>
   dispatchCall fc s = (ResultText ''ok'', s)"
  by (simp add: dispatchCall_def)

lemma handleToolCall_responses:
  "toolResponses (handleToolCall fcs s)
     = toolResponses s @ [fst (dispatchLoop fcs [] (s\<lparr>isProcessing := True, isListening := False\<rparr>))]"
  by (simp add: handleToolCall_def Let_def dispatchLoop_frame)

lemma handleToolCall_last:
  "last (toolResponses (handleToolCall fcs s))
     = fst (dispatchLoop fcs [] (s\<lparr>isProcessing := True, isListening := False\<rparr>))"
  by (simp add: handleToolCall_responses)

text \<open>
  Claim C9. A call whose name is none of createTimer, getTimers, logObservation and
  getActiveRecipe leaves the state as it is and resolves with \<^verbatim>\<open>{result: "ok"}\<close>; the
  batch it belongs to is answered by one message with a response for every call, and the
  response at the call's position carries its id, its name and that result.
\<close>

theorem unknown_tool_resolves_ok:
  assumes "i < length fcs"
    and "fc_name (fcs ! i) \<notin> {''createTimer'', ''getTimers'', ''logObservation'', ''getActiveRecipe''}"
  shows "dispatchCall (fcs ! i) s' = (ResultText ''ok'', s') \<and>
         toolResponses (handleToolCall fcs s)
           = toolResponses s @ [last (toolResponses (handleToolCall fcs s))] \<and>
         length (last (toolResponses (handleToolCall fcs s))) = length fcs \<and>
         last (toolResponses (handleToolCall fcs s)) ! i
           = \<lparr>resp_id = fc_id (fcs ! i), resp_name = fc_name (fcs ! i),
              response = ResultText ''ok''\<rparr>"
proof -
  let ?s0 = "s\<lparr>isProcessing := True, isListening := False\<rparr>"
  obtain s1 where "fst (dispatchLoop fcs [] ?s0) ! (length ([]::function_response list) + i)
      = \<lparr>resp_id = fc_id (fcs ! i), resp_name = fc_name (fcs ! i),
         response = fst (dispatchCall (fcs ! i) s1)\<rparr>"
    using dispatchLoop_nth [OF assms(1), of ?s0 "[]"] by blast
  then have "fst (dispatchLoop fcs [] ?s0) ! i
      = \<lparr>resp_id = fc_id (fcs ! i), resp_name = fc_name (fcs ! i), response = ResultText ''ok''\<rparr>"
    using unknown_result [OF assms(2), of s1] by simp
  then show ?thesis
    using unknown_result [OF assms(2), of s']
    by (simp add: handleToolCall_last dispatchLoop_length) (simp add: handleToolCall_responses)
qed

text \<open>
  Claim C3, as the code has it. A batch is answered by exactly one message, appended to
  what was sent before; its responses echo the ids and names of the calls, in order; a
  getTimers call anywhere in the batch returns \<^verbatim>\<open>timersRef.current\<close> as it was when the
  batch arrived, because \<^verbatim>\<open>addTimer\<close> only queues a state update and the ref follows
  the state after the next render. For the batch createTimer, getTimers, getActiveRecipe
  there are three responses, the new timer is in the timer state after the batch, and a
  getTimers call made after the ref was synchronised returns it.
\<close>

theorem tool_batch_correlated:
  "toolResponses (handleToolCall fcs s)
     = toolResponses s @ [last (toolResponses (handleToolCall fcs s))] \<and>
   map resp_id (last (toolResponses (handleToolCall fcs s))) = map fc_id fcs \<and>
   map resp_name (last (toolResponses (handleToolCall fcs s))) = map fc_name fcs \<and>
   (i < length fcs \<and> fc_name (fcs ! i) = ''getTimers'' \<longrightarrow>
      response (last (toolResponses (handleToolCall fcs s)) ! i) = ResultTimers (timersRef s)) \<and>
   (fc_name c1 = ''createTimer'' \<and> fc_name c2 = ''getTimers'' \<and> fc_name c3 = ''getActiveRecipe'' \<longrightarrow>
      length (last (toolResponses (handleToolCall [c1, c2, c3] s))) = 3 \<and>
      timers (handleToolCall [c1, c2, c3] s)
        = timers s @ [newTimer (randomIds s (randomCalls s)) (arg_label (fc_args c1))
                        (arg_durationSeconds (fc_args c1))] \<and>
      fst (dispatchCall c2 (syncTimersRef (handleToolCall [c1, c2, c3] s)))
        = ResultTimers (timers s @ [newTimer (randomIds s (randomCalls s)) (arg_label (fc_args c1))
                        (arg_durationSeconds (fc_args c1))]))"
proof -
  let ?s0 = "s\<lparr>isProcessing := True, isListening := False\<rparr>"
  have a: "toolResponses (handleToolCall fcs s)
     = toolResponses s @ [last (toolResponses (handleToolCall fcs s))]"
    by (simp add: handleToolCall_last) (simp add: handleToolCall_responses)
  have b: "map resp_id (last (toolResponses (handleToolCall fcs s))) = map fc_id fcs"
    "map resp_name (last (toolResponses (handleToolCall fcs s))) = map fc_name fcs"
    using dispatchLoop_ids [of fcs "[]" ?s0] by (simp_all add: handleToolCall_last)
  have c: "response (last (toolResponses (handleToolCall fcs s)) ! i) = ResultTimers (timersRef s)"
    if lt: "i < length fcs" and gt: "fc_name (fcs ! i) = ''getTimers''" for i
  proof -
    obtain s1 where "timersRef s1 = timersRef ?s0"
      and "fst (dispatchLoop fcs [] ?s0) ! (length ([]::function_response list) + i)
        = \<lparr>resp_id = fc_id (fcs ! i), resp_name = fc_name (fcs ! i),
           response = fst (dispatchCall (fcs ! i) s1)\<rparr>"
      using dispatchLoop_nth [OF lt, of ?s0 "[]"] by blast
    then show ?thesis
      using getTimers_result [OF gt, of s1] by (simp add: handleToolCall_last)
  qed
  have d: "length (last (toolResponses (handleToolCall [c1, c2, c3] s))) = 3"
    by (simp add: handleToolCall_last dispatchLoop_length)
  have e: "timers (handleToolCall [c1, c2, c3] s)
        = timers s @ [newTimer (randomIds s (randomCalls s)) (arg_label (fc_args c1))
                        (arg_durationSeconds (fc_args c1))]"
    if "fc_name c1 = ''createTimer''" "fc_name c2 = ''getTimers''" "fc_name c3 = ''getActiveRecipe''"
    using that
    by (simp add: handleToolCall_def Let_def dispatchCall_def addTimer_def addTimerTo_def
        split: option.split)
  from a b c d e show ?thesis
    by (simp add: getTimers_result syncTimersRef_def)
qed

text \<open>
  The statement for a batch of getTimers and an undeclared tool on the initial component.
\<close>

theorem unknown_tool_resolves_ok_witness:
  "(1::nat) < length [callGetTimers, callUnknown] \<and>
   fc_name ([callGetTimers, callUnknown] ! 1)
     \<notin> {''createTimer'', ''getTimers'', ''logObservation'', ''getActiveRecipe''} \<and>
   length (last (toolResponses (handleToolCall [callGetTimers, callUnknown] chef0))) = 2 \<and>
   last (toolResponses (handleToolCall [callGetTimers, callUnknown] chef0)) ! 1
     = \<lparr>resp_id = ''4'', resp_name = ''setOvenTemperature'', response = ResultText ''ok''\<rparr>"
  using unknown_tool_resolves_ok [of 1 "[callGetTimers, callUnknown]" chef0 chef0]
  by (simp add: callUnknown_def)

text \<open>
  The statement for the batch of three on the initial component.
\<close>

theorem tool_batch_correlated_witness:
  "(1::nat) < length pastaBatch \<and> fc_name (pastaBatch ! 1) = ''getTimers'' \<and>
   fc_name callCreatePasta = ''createTimer'' \<and> fc_name callGetTimers = ''getTimers'' \<and>
   fc_name callGetActiveRecipe = ''getActiveRecipe'' \<and>
   map resp_id (last (toolResponses (handleToolCall pastaBatch chef0))) = [''1'', ''2'', ''3''] \<and>
   response (last (toolResponses (handleToolCall pastaBatch chef0)) ! 1) = ResultTimers [] \<and>
   timers (handleToolCall pastaBatch chef0) = [newTimer ''t'' ''Pasta'' 600] \<and>
   fst (dispatchCall callGetTimers (syncTimersRef (handleToolCall pastaBatch chef0)))
     = ResultTimers [newTimer ''t'' ''Pasta'' 600]"
  using tool_batch_correlated
    [of pastaBatch chef0 1 callCreatePasta callGetTimers callGetActiveRecipe]
  by (simp add: pastaBatch_def callCreatePasta_def callGetTimers_def callGetActiveRecipe_def
      chef0_def initialChef_def)

text \<open>
  Claim C3 as stated fails: on the initial component, the batch createTimer("Pasta", 600),
  getTimers, getActiveRecipe creates the timer, and the getTimers response of the same
  batch is the empty list.
\<close>

theorem batch_getTimers_stale_counterexample:
  "map fc_name pastaBatch = [''createTimer'', ''getTimers'', ''getActiveRecipe''] \<and>
   timers (handleToolCall pastaBatch chef0) = [newTimer ''t'' ''Pasta'' 600] \<and>
   last (toolResponses (handleToolCall pastaBatch chef0)) ! 1
     = \<lparr>resp_id = ''2'', resp_name = ''getTimers'', response = ResultTimers []\<rparr>"
  by (simp add: pastaBatch_def callCreatePasta_def callGetTimers_def callGetActiveRecipe_def
      chef0_def initialChef_def handleToolCall_def dispatchCall_def addTimer_def
      addTimerTo_def noArgs_def)

section \<open>Properties of playback, connection and teardown\<close>


lemma handleToolCall_frame:
  "nextStartTimeRef (handleToolCall fcs s) = nextStartTimeRef s"
  "started (handleToolCall fcs s) = started s"
  "sourcesRef (handleToolCall fcs s) = sourcesRef s"
  "stopped (handleToolCall fcs s) = stopped s"
  "nextSourceId (handleToolCall fcs s) = nextSourceId s"
  "audioContextRef (handleToolCall fcs s) = audioContextRef s"
  by (simp_all add: handleToolCall_def Let_def dispatchLoop_frame)

lemma handleTranscription_frame:
  "nextStartTimeRef (handleTranscription w t s) = nextStartTimeRef s"
  "started (handleTranscription w t s) = started s"
  "sourcesRef (handleTranscription w t s) = sourcesRef s"
  "stopped (handleTranscription w t s) = stopped s"
  "nextSourceId (handleTranscription w t s) = nextSourceId s"
  "audioContextRef (handleTranscription w t s) = audioContextRef s"
  by (simp_all add: handleTranscription_def pushLog_def split: option.split)

lemma handleTurnComplete_frame:
  "nextStartTimeRef (handleTurnComplete s) = nextStartTimeRef s"
  "started (handleTurnComplete s) = started s"
  "sourcesRef (handleTurnComplete s) = sourcesRef s"
  "stopped (handleTurnComplete s) = stopped s"
  "nextSourceId (handleTurnComplete s) = nextSourceId s"
  "audioContextRef (handleTurnComplete s) = audioContextRef s"
  by (simp_all add: handleTurnComplete_def)

lemma handleAudio_schedules:
  "started (handleAudio now d s)
     = started s @ [\<lparr>source = nextSourceId s, startAt = max (nextStartTimeRef s) now,
                     bufferDuration = d\<rparr>]"
  "nextStartTimeRef (handleAudio now d s) = max (nextStartTimeRef s) now + d"
  by (simp_all add: handleAudio_def Let_def max_def)

lemma onmessage_quiet:
  assumes "\<not> interrupted m" "audioData m = None"
  shows "nextStartTimeRef (onmessage ti ta m s) = nextStartTimeRef s"
    and "started (onmessage ti ta m s) = started s"
  using assms
  by (simp_all add: onmessage_def Let_def handleToolCall_frame handleTranscription_frame
      handleTurnComplete_frame split: option.split)

lemma onmessages_quiet:
  "list_all (\<lambda>p. \<not> interrupted (snd (snd p)) \<and> audioData (snd (snd p)) = None) ms \<Longrightarrow>
   nextStartTimeRef (onmessages ms s) = nextStartTimeRef s \<and> started (onmessages ms s) = started s"
proof (induction ms arbitrary: s)
  case Nil
  then show ?case by simp
next
  case (Cons p ms)
  obtain ti ta m where p: "p = (ti, ta, m)" by (cases p)
  with Cons.prems have q: "\<not> interrupted m" "audioData m = None" by simp_all
  from Cons.prems have "list_all (\<lambda>p. \<not> interrupted (snd (snd p)) \<and> audioData (snd (snd p)) = None) ms"
    by simp
  from Cons.IH [OF this, of "onmessage ti ta m s"] show ?case
    by (simp add: p onmessage_quiet [OF q])
qed

lemma onmessage_audio_started:
  assumes "audioData m = Some d"
  shows "started (onmessage ti ta m s) = started s @ [last (started (onmessage ti ta m s))]"
    and "bufferDuration (last (started (onmessage ti ta m s))) = d"
    and "nextStartTimeRef (onmessage ti ta m s)
           = startAt (last (started (onmessage ti ta m s))) + d"
    and "\<not> interrupted m \<Longrightarrow>
           startAt (last (started (onmessage ti ta m s))) = max (nextStartTimeRef s) ta"
proof -
  define s0 where "s0 = (if turnComplete m then handleTurnComplete s else s)"
  define s' where "s' = handleTranscription ''Chef: '' (outputTranscription m)
      (handleTranscription ''You: '' (inputTranscription m)
        (if interrupted m then handleInterrupted ti s0 else s0))"
  have s': "onmessage ti ta m s
           = (case toolCall m of None \<Rightarrow> handleAudio ta d s'
              | Some fcs \<Rightarrow> handleToolCall fcs (handleAudio ta d s'))"
      "started s' = started s" "\<not> interrupted m \<longrightarrow> nextStartTimeRef s' = nextStartTimeRef s"
    using assms unfolding s'_def s0_def
    by (simp_all add: onmessage_def Let_def handleTranscription_frame
        handleTurnComplete_frame handleInterrupted_def)
  have st: "started (onmessage ti ta m s) = started (handleAudio ta d s')"
    and nx: "nextStartTimeRef (onmessage ti ta m s) = nextStartTimeRef (handleAudio ta d s')"
    by (simp_all add: s'(1) handleToolCall_frame split: option.split)
  show "started (onmessage ti ta m s) = started s @ [last (started (onmessage ti ta m s))]"
    by (simp add: st handleAudio_schedules s'(2))
  show "bufferDuration (last (started (onmessage ti ta m s))) = d"
    by (simp add: st handleAudio_schedules)
  show "nextStartTimeRef (onmessage ti ta m s)
           = startAt (last (started (onmessage ti ta m s))) + d"
    by (simp add: st nx handleAudio_schedules)
  show "startAt (last (started (onmessage ti ta m s))) = max (nextStartTimeRef s) ta"
    if "\<not> interrupted m"
    using that s'(3) by (simp add: st handleAudio_schedules)
qed

text \<open>
  Claim C1, as the code has it. A chunk is started at the larger of the cursor and the
  clock reading, and the cursor moves to that start plus the chunk's duration. For two
  chunks with no interruption and no other chunk between them (tool calls, transcripts
  and turn ends may lie between), the second starts at the larger of the first one's end
  and the clock reading taken when the second is handled: exactly at the first one's end
  when the second is handled before that end, and at the clock reading, after a gap, when
  it arrives later. Time values are rationals here; the statement uses only the
  comparison and the one addition that the code performs.
\<close>

theorem chunks_back_to_back_unless_late:
  "started (handleAudio now d s)
     = started s @ [\<lparr>source = nextSourceId s, startAt = max (nextStartTimeRef s) now,
                     bufferDuration = d\<rparr>] \<and>
   nextStartTimeRef (handleAudio now d s) = max (nextStartTimeRef s) now + d \<and>
   (audioData m1 = Some d1 \<and>
    list_all (\<lambda>p. \<not> interrupted (snd (snd p)) \<and> audioData (snd (snd p)) = None) mid \<and>
    audioData m2 = Some d2 \<and> \<not> interrupted m2 \<longrightarrow>
      started (onmessage ti2 ta2 m2 (onmessages mid (onmessage ti1 ta1 m1 s)))
        = started (onmessage ti1 ta1 m1 s)
          @ [last (started (onmessage ti2 ta2 m2 (onmessages mid (onmessage ti1 ta1 m1 s))))] \<and>
      bufferDuration (last (started (onmessage ti1 ta1 m1 s))) = d1 \<and>
      startAt (last (started (onmessage ti2 ta2 m2 (onmessages mid (onmessage ti1 ta1 m1 s)))))
        = max (startAt (last (started (onmessage ti1 ta1 m1 s))) + d1) ta2 \<and>
      (ta2 \<le> startAt (last (started (onmessage ti1 ta1 m1 s))) + d1 \<longrightarrow>
         startAt (last (started (onmessage ti2 ta2 m2 (onmessages mid (onmessage ti1 ta1 m1 s)))))
           = startAt (last (started (onmessage ti1 ta1 m1 s))) + d1))"
proof -
  let ?s1 = "onmessage ti1 ta1 m1 s"
  let ?sm = "onmessages mid ?s1"
  let ?s2 = "onmessage ti2 ta2 m2 ?sm"
  have seq: "started ?s2 = started ?s1 @ [last (started ?s2)] \<and>
      bufferDuration (last (started ?s1)) = d1 \<and>
      startAt (last (started ?s2)) = max (startAt (last (started ?s1)) + d1) ta2"
    if a1: "audioData m1 = Some d1"
      and q: "list_all (\<lambda>p. \<not> interrupted (snd (snd p)) \<and> audioData (snd (snd p)) = None) mid"
      and a2: "audioData m2 = Some d2" and n2: "\<not> interrupted m2"
  proof -
    note mid = onmessages_quiet [OF q, of ?s1]
    have "started ?s2 = started ?sm @ [last (started ?s2)]"
      by (rule onmessage_audio_started(1) [OF a2])
    moreover have "startAt (last (started ?s2)) = max (nextStartTimeRef ?sm) ta2"
      by (rule onmessage_audio_started(4) [OF a2 n2])
    moreover have "nextStartTimeRef ?s1 = startAt (last (started ?s1)) + d1"
      by (rule onmessage_audio_started(3) [OF a1])
    moreover have "bufferDuration (last (started ?s1)) = d1"
      by (rule onmessage_audio_started(2) [OF a1])
    ultimately show ?thesis using mid by simp
  qed
  show ?thesis
    using seq by (auto simp: handleAudio_schedules max_def)
qed

text \<open>
  The statement for a chunk of 2 seconds handled at time 0, a tool-call batch, and a chunk
  of 3 seconds handled at 1.5: the second chunk starts at 2.
\<close>

theorem chunks_back_to_back_unless_late_witness:
  "audioData (audioMsg 2) = Some 2 \<and>
   list_all (\<lambda>p. \<not> interrupted (snd (snd p)) \<and> audioData (snd (snd p)) = None)
     [(1, 1, toolMsg pastaBatch)] \<and>
   audioData (audioMsg 3) = Some 3 \<and> \<not> interrupted (audioMsg 3) \<and>
   (3/2 :: rat) \<le> startAt (last (started (onmessage 0 0 (audioMsg 2) chefConnected))) + 2 \<and>
   startAt (last (started (onmessage 0 0 (audioMsg 2) chefConnected))) = 0 \<and>
   startAt (last (started (onmessage (3/2) (3/2) (audioMsg 3)
      (onmessages [(1, 1, toolMsg pastaBatch)] (onmessage 0 0 (audioMsg 2) chefConnected))))) = 2"
proof -
  have s: "startAt (last (started (onmessage 0 0 (audioMsg 2) chefConnected))) = 0"
    by (simp add: onmessage_def audioMsg_def handleTranscription_def handleAudio_def
        chefConnected_def onopen_def connectMedia_def connectToGemini_def stopSession_def
        chef0_def initialChef_def)
  show ?thesis
    using chunks_back_to_back_unless_late
      [where s = chefConnected and ?m1.0 = "audioMsg 2" and ?d1.0 = 2
          and mid = "[(1, 1, toolMsg pastaBatch)]" and ?m2.0 = "audioMsg 3" and ?d2.0 = 3
          and ?ti2.0 = "3/2" and ?ta2.0 = "3/2" and ?ti1.0 = 0 and ?ta1.0 = 0]
    by (simp add: s) (simp add: audioMsg_def toolMsg_def)
qed

text \<open>
  Claim C1 as stated fails: with no interruption, a chunk of 1 second handled at time 0
  and a second one handled at time 5 start at 0 and at 5, not at 0 and 1.
\<close>

theorem late_chunk_gap_counterexample:
  "\<not> interrupted (audioMsg 1) \<and>
   started (onmessages [(0, 0, audioMsg 1), (5, 5, audioMsg 1)] chefConnected)
     = [\<lparr>source = 0, startAt = 0, bufferDuration = 1\<rparr>,
        \<lparr>source = 1, startAt = 5, bufferDuration = 1\<rparr>]"
  by (simp add: onmessage_def audioMsg_def handleTranscription_def handleAudio_def
      chefConnected_def onopen_def connectMedia_def connectToGemini_def stopSession_def
      chef0_def initialChef_def)

lemma onmessage_interrupt_only:
  assumes "interrupted m" "audioData m = None"
  shows "stopped (onmessage t ta m s) = stopped s \<union> sourcesRef s"
    and "sourcesRef (onmessage t ta m s) = {}"
    and "audioContextRef s \<Longrightarrow> nextStartTimeRef (onmessage t ta m s) = t"
  using assms
  by (simp_all add: onmessage_def Let_def handleToolCall_frame handleTranscription_frame
      handleTurnComplete_frame handleInterrupted_def split: option.split)

lemma endedEvent_stale:
  assumes "u \<notin> sourcesRef s"
  shows "sourcesRef (endedEvent u s) = sourcesRef s"
    and "nextStartTimeRef (endedEvent u s) = nextStartTimeRef s"
    and "started (endedEvent u s) = started s"
    and "stopped (endedEvent u s) = stopped s"
  using assms by (simp_all add: endedEvent_def onended_def Let_def)

text \<open>
  Claim C2, as the code has it. The interruption branch calls \<^verbatim>\<open>stop()\<close> on every source of
  the live set, empties the set, schedules nothing, and sets the cursor to the clock
  reading of the output context (to 0 when the context ref is null); the same holds for
  the whole handler of a message that carries the interruption and no audio. The branch
  does not detach the \<^verbatim>\<open>onended\<close> handlers. The browser dispatches \<^verbatim>\<open>ended\<close> also for a
  source that was stopped, so the callback of a stopped source still runs afterwards; for
  a source that is not in the live set it changes neither the set, the cursor, nor what
  was started or stopped.
\<close>

theorem interruption_flushes_playback:
  "stopped (handleInterrupted t s) = stopped s \<union> sourcesRef s \<and>
   sourcesRef (handleInterrupted t s) = {} \<and>
   started (handleInterrupted t s) = started s \<and>
   onendedSet (handleInterrupted t s) = onendedSet s \<and>
   (audioContextRef s \<longrightarrow> nextStartTimeRef (handleInterrupted t s) = t) \<and>
   (\<not> audioContextRef s \<longrightarrow> nextStartTimeRef (handleInterrupted t s) = 0) \<and>
   (interrupted m \<and> audioData m = None \<longrightarrow>
      stopped (onmessage t ta m s) = stopped s \<union> sourcesRef s \<and>
      sourcesRef (onmessage t ta m s) = {} \<and>
      (audioContextRef s \<longrightarrow> nextStartTimeRef (onmessage t ta m s) = t)) \<and>
   (u \<notin> sourcesRef s \<longrightarrow>
      sourcesRef (endedEvent u s) = sourcesRef s \<and>
      nextStartTimeRef (endedEvent u s) = nextStartTimeRef s \<and>
      started (endedEvent u s) = started s \<and>
      stopped (endedEvent u s) = stopped s)"
  using onmessage_interrupt_only [where m = m and t = t and ta = ta and s = s]
    endedEvent_stale [where u = u and s = s]
  by (simp add: handleInterrupted_def)

lemma after_chunk:
  "sourcesRef (onmessage 0 0 (audioMsg 1) chefConnected) = {0}"
  "stopped (onmessage 0 0 (audioMsg 1) chefConnected) = {}"
  "audioContextRef (onmessage 0 0 (audioMsg 1) chefConnected)"
  "nextStartTimeRef (onmessage 0 0 (audioMsg 1) chefConnected) = 1"
  by (simp_all add: onmessage_def audioMsg_def handleTranscription_def handleAudio_def
      chefConnected_def onopen_def connectMedia_def connectToGemini_def stopSession_def
      chef0_def initialChef_def)

text \<open>
  The statement for a chunk handled at time 0, an interruption at 0.5, and the
  \<^verbatim>\<open>ended\<close> event of the stopped source.
\<close>

theorem interruption_flushes_playback_witness:
  "audioContextRef (onmessage 0 0 (audioMsg 1) chefConnected) \<and>
   interrupted interruptMsg \<and> audioData interruptMsg = None \<and>
   stopped (onmessage (1/2) (1/2) interruptMsg (onmessage 0 0 (audioMsg 1) chefConnected)) = {0} \<and>
   sourcesRef (onmessage (1/2) (1/2) interruptMsg (onmessage 0 0 (audioMsg 1) chefConnected)) = {} \<and>
   nextStartTimeRef (onmessage (1/2) (1/2) interruptMsg (onmessage 0 0 (audioMsg 1) chefConnected))
     = 1/2 \<and>
   0 \<notin> sourcesRef (onmessage (1/2) (1/2) interruptMsg (onmessage 0 0 (audioMsg 1) chefConnected)) \<and>
   sourcesRef (endedEvent 0
       (onmessage (1/2) (1/2) interruptMsg (onmessage 0 0 (audioMsg 1) chefConnected))) = {} \<and>
   nextStartTimeRef (endedEvent 0
       (onmessage (1/2) (1/2) interruptMsg (onmessage 0 0 (audioMsg 1) chefConnected))) = 1/2"
proof -
  let ?s1 = "onmessage 0 0 (audioMsg 1) chefConnected"
  let ?s2 = "onmessage (1/2) (1/2) interruptMsg ?s1"
  have i: "interrupted interruptMsg" "audioData interruptMsg = None"
    by (simp_all add: interruptMsg_def)
  note a = interruption_flushes_playback
    [where s = ?s1 and t = "1/2" and ta = "1/2" and m = interruptMsg]
  from a i have b: "stopped ?s2 = {0}" "sourcesRef ?s2 = {}" "nextStartTimeRef ?s2 = 1/2"
    by (simp_all add: after_chunk)
  note c = interruption_flushes_playback [where s = ?s2 and u = 0]
  from c b i show ?thesis by (simp add: after_chunk)
qed

text \<open>
  Claim C2 as stated fails in its last part: source 0 is stopped by the interruption, no
  completion callback has run by then, and the \<^verbatim>\<open>ended\<close> event of source 0 that follows
  runs its callback.
\<close>

theorem stopped_unit_callback_counterexample:
  "0 \<in> stopped (onmessages [(0, 0, audioMsg 1), (1/2, 1/2, interruptMsg)] chefConnected) \<and>
   onendedRuns (onmessages [(0, 0, audioMsg 1), (1/2, 1/2, interruptMsg)] chefConnected) = [] \<and>
   onendedRuns (endedEvent 0
      (onmessages [(0, 0, audioMsg 1), (1/2, 1/2, interruptMsg)] chefConnected)) = [0]"
  by (simp add: onmessage_def audioMsg_def interruptMsg_def handleTranscription_def
      handleAudio_def handleInterrupted_def endedEvent_def onended_def
      chefConnected_def onopen_def connectMedia_def connectToGemini_def stopSession_def
      chef0_def initialChef_def)







text \<open>
  Teardown: what \<^verbatim>\<open>stopSession\<close> does whatever its argument, what it leaves alone with
  \<^verbatim>\<open>keepCamera = true\<close>, and what it releases with \<^verbatim>\<open>keepCamera = false\<close>.
\<close>

lemma stopSession_teardown:
  "\<not> audioContextRef (stopSession keepCamera s)"
  "\<not> inputContextRef (stopSession keepCamera s)"
  "stopped (stopSession keepCamera s) = stopped s \<union> sourcesRef s"
  "sourcesRef (stopSession keepCamera s) = {}"
  "\<not> videoIntervalRef (stopSession keepCamera s)"
  "\<not> visionIntervalRef (stopSession keepCamera s)"
  "sessionPromiseRef (stopSession keepCamera s) = None"
  "\<not> isConnected (stopSession keepCamera s)"
  "\<not> isConnecting (stopSession keepCamera s)"
  "\<not> isSpeaking (stopSession keepCamera s)"
  "\<not> isListening (stopSession keepCamera s)"
  "\<not> isProcessing (stopSession keepCamera s)"
  by (simp_all add: stopSession_def Let_def)

lemma stopSession_keep:
  "mediaStreamRef (stopSession True s) = mediaStreamRef s"
  "stoppedTracks (stopSession True s) = stoppedTracks s"
  "isCameraActive (stopSession True s) = isCameraActive s"
  "videoSrcObject (stopSession True s) = videoSrcObject s"
  by (simp_all add: stopSession_def Let_def)

lemma stopSession_release:
  "mediaStreamRef (stopSession False s) = None"
  "stoppedTracks (stopSession False s) = stoppedTracks s \<union> set_option (mediaStreamRef s)"
  "mediaStreamRef s \<noteq> None \<Longrightarrow> \<not> isCameraActive (stopSession False s)"
  "mediaStreamRef s = None \<Longrightarrow> isCameraActive (stopSession False s) = isCameraActive s"
  by (auto simp: stopSession_def Let_def)

text \<open>
  The remote close and error callbacks leave the media stream reference, its tracks, the camera
  flag and the preview untouched and perform every other teardown effect; the user's disconnect
  performs the same effects and stops the tracks of the stream the reference holds, and of no
  other stream. A granted media request stores a fresh stream in the reference without stopping
  the one it held.
\<close>

lemma teardown_effects:
  "(mediaStreamRef (onclose code reason s) = mediaStreamRef s \<and>
    stoppedTracks (onclose code reason s) = stoppedTracks s \<and>
    isCameraActive (onclose code reason s) = isCameraActive s \<and>
    videoSrcObject (onclose code reason s) = videoSrcObject s \<and>
    \<not> isConnected (onclose code reason s) \<and> \<not> isConnecting (onclose code reason s) \<and>
    \<not> audioContextRef (onclose code reason s) \<and> \<not> inputContextRef (onclose code reason s) \<and>
    stopped (onclose code reason s) = stopped s \<union> sourcesRef s \<and>
    sourcesRef (onclose code reason s) = {} \<and>
    \<not> videoIntervalRef (onclose code reason s) \<and> \<not> visionIntervalRef (onclose code reason s) \<and>
    sessionPromiseRef (onclose code reason s) = None \<and>
    \<not> isSpeaking (onclose code reason s) \<and> \<not> isListening (onclose code reason s) \<and>
    \<not> isProcessing (onclose code reason s)) \<and>
   (mediaStreamRef (onerror e s) = mediaStreamRef s \<and>
    stoppedTracks (onerror e s) = stoppedTracks s \<and>
    isCameraActive (onerror e s) = isCameraActive s \<and>
    videoSrcObject (onerror e s) = videoSrcObject s \<and>
    \<not> isConnected (onerror e s) \<and> \<not> isConnecting (onerror e s) \<and>
    \<not> audioContextRef (onerror e s) \<and> \<not> inputContextRef (onerror e s) \<and>
    stopped (onerror e s) = stopped s \<union> sourcesRef s \<and>
    sourcesRef (onerror e s) = {} \<and>
    \<not> videoIntervalRef (onerror e s) \<and> \<not> visionIntervalRef (onerror e s) \<and>
    sessionPromiseRef (onerror e s) = None \<and>
    \<not> isSpeaking (onerror e s) \<and> \<not> isListening (onerror e s) \<and>
    \<not> isProcessing (onerror e s)) \<and>
   (mediaStreamRef (onDisconnect s) = None \<and>
    stoppedTracks (onDisconnect s) = stoppedTracks s \<union> set_option (mediaStreamRef s) \<and>
    (mediaStreamRef s = Some stream \<longrightarrow>
       stream \<in> stoppedTracks (onDisconnect s) \<and> \<not> isCameraActive (onDisconnect s)) \<and>
    \<not> isConnected (onDisconnect s) \<and> \<not> isConnecting (onDisconnect s) \<and>
    \<not> audioContextRef (onDisconnect s) \<and> \<not> inputContextRef (onDisconnect s) \<and>
    stopped (onDisconnect s) = stopped s \<union> sourcesRef s \<and>
    sourcesRef (onDisconnect s) = {} \<and>
    \<not> videoIntervalRef (onDisconnect s) \<and> \<not> visionIntervalRef (onDisconnect s) \<and>
    sessionPromiseRef (onDisconnect s) = None \<and>
    \<not> isSpeaking (onDisconnect s) \<and> \<not> isListening (onDisconnect s) \<and>
    \<not> isProcessing (onDisconnect s)) \<and>
   (0 < connectPending s \<longrightarrow>
      mediaStreamRef (connectMedia (MediaGranted hasVideo) s) = Some (nextStreamId s) \<and>
      nextStreamId (connectMedia (MediaGranted hasVideo) s) = Suc (nextStreamId s) \<and>
      stoppedTracks (connectMedia (MediaGranted hasVideo) s) = stoppedTracks s)"
proof -
  have a: "mediaStreamRef (onclose code reason s) = mediaStreamRef s \<and>
    stoppedTracks (onclose code reason s) = stoppedTracks s \<and>
    isCameraActive (onclose code reason s) = isCameraActive s \<and>
    videoSrcObject (onclose code reason s) = videoSrcObject s \<and>
    \<not> isConnected (onclose code reason s) \<and> \<not> isConnecting (onclose code reason s) \<and>
    \<not> audioContextRef (onclose code reason s) \<and> \<not> inputContextRef (onclose code reason s) \<and>
    stopped (onclose code reason s) = stopped s \<union> sourcesRef s \<and>
    sourcesRef (onclose code reason s) = {} \<and>
    \<not> videoIntervalRef (onclose code reason s) \<and> \<not> visionIntervalRef (onclose code reason s) \<and>
    sessionPromiseRef (onclose code reason s) = None \<and>
    \<not> isSpeaking (onclose code reason s) \<and> \<not> isListening (onclose code reason s) \<and>
    \<not> isProcessing (onclose code reason s)"
    by (simp add: onclose_def stopSession_teardown stopSession_keep)
  have b: "mediaStreamRef (onerror e s) = mediaStreamRef s \<and>
    stoppedTracks (onerror e s) = stoppedTracks s \<and>
    isCameraActive (onerror e s) = isCameraActive s \<and>
    videoSrcObject (onerror e s) = videoSrcObject s \<and>
    \<not> isConnected (onerror e s) \<and> \<not> isConnecting (onerror e s) \<and>
    \<not> audioContextRef (onerror e s) \<and> \<not> inputContextRef (onerror e s) \<and>
    stopped (onerror e s) = stopped s \<union> sourcesRef s \<and>
    sourcesRef (onerror e s) = {} \<and>
    \<not> videoIntervalRef (onerror e s) \<and> \<not> visionIntervalRef (onerror e s) \<and>
    sessionPromiseRef (onerror e s) = None \<and>
    \<not> isSpeaking (onerror e s) \<and> \<not> isListening (onerror e s) \<and>
    \<not> isProcessing (onerror e s)"
    by (simp add: onerror_def stopSession_teardown stopSession_keep)
  have c: "mediaStreamRef (onDisconnect s) = None \<and>
    stoppedTracks (onDisconnect s) = stoppedTracks s \<union> set_option (mediaStreamRef s) \<and>
    (mediaStreamRef s = Some stream \<longrightarrow>
       stream \<in> stoppedTracks (onDisconnect s) \<and> \<not> isCameraActive (onDisconnect s)) \<and>
    \<not> isConnected (onDisconnect s) \<and> \<not> isConnecting (onDisconnect s) \<and>
    \<not> audioContextRef (onDisconnect s) \<and> \<not> inputContextRef (onDisconnect s) \<and>
    stopped (onDisconnect s) = stopped s \<union> sourcesRef s \<and>
    sourcesRef (onDisconnect s) = {} \<and>
    \<not> videoIntervalRef (onDisconnect s) \<and> \<not> visionIntervalRef (onDisconnect s) \<and>
    sessionPromiseRef (onDisconnect s) = None \<and>
    \<not> isSpeaking (onDisconnect s) \<and> \<not> isListening (onDisconnect s) \<and>
    \<not> isProcessing (onDisconnect s)"
    by (simp add: onDisconnect_def stopSession_teardown stopSession_release)
  have d: "0 < connectPending s \<longrightarrow>
      mediaStreamRef (connectMedia (MediaGranted hasVideo) s) = Some (nextStreamId s) \<and>
      nextStreamId (connectMedia (MediaGranted hasVideo) s) = Suc (nextStreamId s) \<and>
      stoppedTracks (connectMedia (MediaGranted hasVideo) s) = stoppedTracks s"
    by (simp add: connectMedia_def)
  from a b c d show ?thesis by blast
qed

lemma chefConnected_stream:
  "mediaStreamRef chefConnected = Some 0" "stoppedTracks chefConnected = {}"
  "sourcesRef chefConnected = {}" "isConnected chefConnected"
  by (simp_all add: chefConnected_def onopen_def connectMedia_def connectToGemini_def
      stopSession_def chef0_def initialChef_def)

lemma chef0_connecting: "0 < connectPending (connectToGemini 0 chef0)"
  "nextStreamId (connectToGemini 0 chef0) = 0" "stoppedTracks (connectToGemini 0 chef0) = {}"
  by (simp_all add: connectToGemini_def stopSession_def chef0_def initialChef_def)

text \<open>
  In one session: the remote close keeps stream 0 live, the user's disconnect stops it.
\<close>

lemma teardown_effects_one_session:
  "mediaStreamRef chefConnected = Some 0 \<and>
   mediaStreamRef (onclose (Some 1006) None chefConnected) = Some 0 \<and>
   stoppedTracks (onclose (Some 1006) None chefConnected) = {} \<and>
   \<not> isConnected (onclose (Some 1006) None chefConnected) \<and>
   sessionPromiseRef (onclose (Some 1006) None chefConnected) = None \<and>
   mediaStreamRef (onDisconnect chefConnected) = None \<and>
   stoppedTracks (onDisconnect chefConnected) = {0} \<and>
   \<not> isCameraActive (onDisconnect chefConnected) \<and>
   0 < connectPending (connectToGemini 0 chef0) \<and>
   mediaStreamRef (connectMedia (MediaGranted True) (connectToGemini 0 chef0)) = Some 0 \<and>
   stoppedTracks (connectMedia (MediaGranted True) (connectToGemini 0 chef0)) = {}"
  using teardown_effects
      [where s = chefConnected and code = "Some 1006" and reason = None and stream = 0]
    teardown_effects [where s = "connectToGemini 0 chef0" and hasVideo = True]
  by (simp add: chefConnected_stream chef0_connecting)

text \<open>
  Claim C8 at the failing input: connect, remote close, connect again, user disconnect. The
  remote close keeps stream 0 live and the component disconnected, as the claim says; the
  second connect stores stream 1 in the reference without stopping stream 0; the user's
  disconnect stops the tracks of stream 1 only, so the camera held through stream 0 is not
  released, where the claim has the user's disconnect release the camera.
\<close>

theorem disconnect_after_reconnect_leaks_stream:
  "mediaStreamRef chefClosed = Some 0 \<and>
   stoppedTracks chefClosed = {} \<and>
   \<not> isConnected chefClosed \<and>
   mediaStreamRef chefReconnected = Some 1 \<and>
   stoppedTracks chefReconnected = {} \<and>
   isConnected chefReconnected \<and>
   mediaStreamRef (onDisconnect chefReconnected) = None \<and>
   \<not> isConnected (onDisconnect chefReconnected) \<and>
   stoppedTracks (onDisconnect chefReconnected) = {1} \<and>
   0 \<notin> stoppedTracks (onDisconnect chefReconnected)"
  by (simp add: chefReconnected_def chefClosed_def chefConnected_def render_def
      syncTimersRef_def onclose_def onDisconnect_def onopen_def connectMedia_def
      connectToGemini_def stopSession_def chef0_def initialChef_def)

section \<open>Properties of the timer suggestions\<close>




text \<open>
  The suggestion handler and the continuation of an analysis, by cases of the three checks.
\<close>

lemma suggestion_created:
  assumes "\<not> hasExistingTimer lc (lc (sug_label sg)) (timersRef s)"
    and "lc (sug_label sg) \<notin> recentTimerLabelsRef s"
    and "0 < sug_durationSeconds sg"
  shows "timers (handleTimerSuggestion lc sg s)
           = timers s @ [newTimer (randomIds s (randomCalls s)) (sug_label sg) (sug_durationSeconds sg)]"
    and "recentTimerLabelsRef (handleTimerSuggestion lc sg s)
           = insert (lc (sug_label sg)) (recentTimerLabelsRef s)"
    and "timeouts (handleTimerSuggestion lc sg s)
           = timeouts s @ [(clockMs s + 30000, lc (sug_label sg))]"
    and "clockMs (handleTimerSuggestion lc sg s) = clockMs s"
  using assms
  by (simp_all add: handleTimerSuggestion_def Let_def addTimer_def addTimerTo_def pushLog_def)

lemma suggestion_skipped:
  assumes "hasExistingTimer lc (lc (sug_label sg)) (timersRef s) \<or>
           lc (sug_label sg) \<in> recentTimerLabelsRef s \<or> sug_durationSeconds sg \<le> 0"
  shows "handleTimerSuggestion lc sg s = s"
  using assms by (auto simp: handleTimerSuggestion_def Let_def)



lemma response_other:
  "timers (visionResponse lc VisionError s) = timers s"
  "timers (visionResponse lc (VisionData d None) s) = timers s"
  by (simp_all add: visionResponse_def Let_def pushLog_def split: option.split)







lemma tracked_initial: "timeoutsTracked (initialChef k r)"
  by (simp add: timeoutsTracked_def initialChef_def)

lemma tracked_suggestion:
  assumes "timeoutsTracked s"
  shows "timeoutsTracked (handleTimerSuggestion lc sg s)"
proof (cases "hasExistingTimer lc (lc (sug_label sg)) (timersRef s) \<or>
           lc (sug_label sg) \<in> recentTimerLabelsRef s \<or> sug_durationSeconds sg \<le> 0")
  case True
  with assms show ?thesis by (simp add: suggestion_skipped)
next
  case False
  then have c: "\<not> hasExistingTimer lc (lc (sug_label sg)) (timersRef s)"
    "lc (sug_label sg) \<notin> recentTimerLabelsRef s" "0 < sug_durationSeconds sg"
    by simp_all
  have "lc (sug_label sg) \<notin> snd ` set (timeouts s)"
    using assms c(2) by (auto simp: timeoutsTracked_def list_all_iff)
  with assms show ?thesis
    by (auto simp: timeoutsTracked_def list_all_iff suggestion_created(2,3) [OF c])
qed

lemma tracked_advance:
  assumes "timeoutsTracked s"
  shows "timeoutsTracked (advanceClock gap s)"
proof -
  let ?due = "\<lambda>p::nat \<times> string. fst p \<le> clockMs s + gap"
  have d: "distinct (map snd (timeouts s))"
    and m: "\<forall>p\<in>set (timeouts s). snd p \<in> recentTimerLabelsRef s"
    using assms by (auto simp: timeoutsTracked_def list_all_iff)
  have "distinct (map snd (filter (\<lambda>p. \<not> ?due p) (timeouts s)))"
    using d by (rule distinct_map_filter)
  moreover have "snd p \<notin> snd ` set (filter ?due (timeouts s))"
    if "p \<in> set (timeouts s)" "\<not> ?due p" for p
  proof
    assume "snd p \<in> snd ` set (filter ?due (timeouts s))"
    then obtain q where q: "q \<in> set (timeouts s)" "?due q" "snd q = snd p" by auto
    with d that(1) have "q = p" by (meson distinct_map inj_onD)
    with q(2) that(2) show False by simp
  qed
  ultimately show ?thesis
    using m by (auto simp: timeoutsTracked_def list_all_iff advanceClock_def Let_def)
qed

lemma tracked_other:
  "timeoutsTracked (render s) = timeoutsTracked s"
  "timeoutsTracked (analyzeVision ctx w s) = timeoutsTracked s"
  "timeoutsTracked (handleToolCall fcs s) = timeoutsTracked s"
proof -
  show "timeoutsTracked (render s) = timeoutsTracked s"
    by (simp add: timeoutsTracked_def render_def syncTimersRef_def Let_def)
  show "timeoutsTracked (analyzeVision ctx w s) = timeoutsTracked s"
    by (simp add: timeoutsTracked_def analyzeVision_def)
  have "timeouts (snd (dispatchLoop fcs acc s0)) = timeouts s0 \<and>
        recentTimerLabelsRef (snd (dispatchLoop fcs acc s0)) = recentTimerLabelsRef s0" for acc s0
    by (induction fcs arbitrary: acc s0)
      (simp_all add: dispatchCall_def addTimer_def pushLog_def split: option.split)
  then show "timeoutsTracked (handleToolCall fcs s) = timeoutsTracked s"
    by (simp add: timeoutsTracked_def handleToolCall_def Let_def)
qed









end
